theory Spec2Isabelle
  imports Complex_Main
begin

section \<open>The home manager: polling a Z-Wave network into InfluxDB\<close>

text \<open>
  This theory embeds \<^verbatim>\<open>src/data_collection/home_manager.py\<close>. The Z-Wave library,
  the InfluxDB client, the logger, the wall clock and \<^verbatim>\<open>threading.Timer\<close> are
  collaborators outside the repository. What the program asks of them is recorded as a
  chronological trace of events; what they answer (whether a write is accepted, what
  the clock shows, what \<^verbatim>\<open>float()\<close> makes of a datum) is an oracle of the
  environment.
\<close>

subsection \<open>Constants of the module\<close>

definition TIME_INTERVAL :: nat where
  "TIME_INTERVAL = 15"

definition CONFIG_NUMBER :: int where
  "CONFIG_NUMBER = 72057594098484979"

subsection \<open>Python values: exceptions and dictionaries\<close>

text \<open>
  \<open>KeyError\<close> is raised by a subscript on a missing key, \<open>FloatError\<close> stands for
  the \<^verbatim>\<open>ValueError\<close> or \<^verbatim>\<open>TypeError\<close> of \<^verbatim>\<open>float()\<close>, and
  \<open>SinkError\<close> for whatever \<^verbatim>\<open>write_points\<close> raises.
\<close>

datatype error = KeyError | FloatError | SinkError

text \<open>
  A dictionary is an association list in iteration order. A Python dictionary holds
  each key once; \<open>py_dict\<close> says so.
\<close>

definition py_dict :: "('k \<times> 'v) list \<Rightarrow> bool" where
  "py_dict d = distinct (map fst d)"

definition dict_get :: "('k \<times> 'v) list \<Rightarrow> 'k \<Rightarrow> error + 'v" where
  "dict_get d k = (case map_of d k of None \<Rightarrow> Inl KeyError | Some v \<Rightarrow> Inr v)"

subsection \<open>The device network as the program reads it\<close>

text \<open>
  The attributes of a library value and node that the program reads. The type \<open>'d\<close>
  is whatever Python object \<^verbatim>\<open>val.data\<close> holds. \<open>label\<close> and \<open>units\<close> are
  Python strings, on which \<^verbatim>\<open>str()\<close> is the identity.
\<close>

record 'd zwave_value =
  id_on_network :: string
  value_id :: int
  label :: string
  data :: 'd
  units :: string

text \<open>
  \<open>isinstance_ZWaveNodeSensor\<close> is the outcome of
  \<^verbatim>\<open>isinstance(node, ZWaveNodeSensor)\<close> and \<open>get_sensors\<close> is the dictionary that
  the library method \<^verbatim>\<open>node.get_sensors()\<close> returns; both are decided by the library.
\<close>

record 'd zwave_node =
  home_id :: int
  node_id :: int
  manufacturer_id :: string
  product_id :: string
  isinstance_ZWaveNodeSensor :: bool
  get_sensors :: "(int \<times> 'd zwave_value) list"
  values' :: "(int \<times> 'd zwave_value) list"

subsection \<open>Points and events\<close>

text \<open>The values of the two dictionaries of a point; \<open>'f\<close> is the type of Python floats.\<close>

datatype 'f jval = JStr string | JInt int | JFloat 'f

record 'f point =
  measurement :: string
  tags :: "(string \<times> 'f jval) list"
  time :: string
  fields' :: "(string \<times> 'f jval) list"

text \<open>
  What the program does to its collaborators, in the order it does it:
  \<^item> \<open>LogInfo fmt\<close>: \<^verbatim>\<open>logger.info(fmt, ...)\<close> (the format string; the arguments
    formatted into it are library representations and are left out);
  \<^item> \<open>TimerArm t\<close>: \<^verbatim>\<open>Timer(t, self.start_polling).start()\<close>;
  \<^item> \<open>WritePoints ps\<close>: a call \<^verbatim>\<open>client.write_points(ps)\<close> that returned,
    \<open>WriteRaised ps\<close>: one that raised;
  \<^item> \<open>SetData n k v\<close>: the assignment \<^verbatim>\<open>network.nodes[n].values[k].data = v\<close>, a
    request the library forwards to the device;
  \<^item> \<open>NetworkStart\<close>, \<open>NetworkStop\<close>: \<^verbatim>\<open>network.start()\<close>, \<^verbatim>\<open>network.stop()\<close>.
\<close>

datatype 'f event =
    LogInfo string
  | TimerArm nat
  | WritePoints "'f point list"
  | WriteRaised "'f point list"
  | SetData int int int
  | NetworkStart
  | NetworkStop

subsection \<open>The environment and the state\<close>

text \<open>
  The oracles: \<open>py_float\<close> is Python's \<^verbatim>\<open>float()\<close> on a datum, \<open>asctime k\<close> is
  what \<^verbatim>\<open>time.asctime(time.localtime())\<close> returns at the \<open>k\<close>-th reading of the clock,
  and \<open>write_ok k\<close> tells whether the \<open>k\<close>-th call of \<^verbatim>\<open>write_points\<close> returns
  (otherwise it raises).
\<close>

record ('d, 'f) env =
  py_float :: "'d \<Rightarrow> error + 'f"
  asctime :: "nat \<Rightarrow> string"
  write_ok :: "nat \<Rightarrow> bool"

datatype lifecycle = NotStarted | Started | Stopped

text \<open>
  A \<^verbatim>\<open>HomeManager\<close> with its world: \<open>network_id\<close> is the identity of the object
  \<^verbatim>\<open>self.network\<close> and \<open>nodes\<close> its dictionary \<^verbatim>\<open>self.network.nodes\<close>;
  \<open>pending\<close> counts the timers armed and not yet fired, \<open>clock\<close> the readings of
  the wall clock, \<open>wcalls\<close> the calls of \<^verbatim>\<open>write_points\<close>; \<open>events\<close> is the trace.
\<close>

record ('d, 'f) home_manager =
  network_id :: nat
  lifecycle :: lifecycle
  nodes :: "(int \<times> 'd zwave_node) list"
  pending :: nat
  clock :: nat
  wcalls :: nat
  events :: "'f event list"

text \<open>A call returns normally (\<open>None\<close>) or raises (\<open>Some e\<close>); the state survives both.\<close>

type_synonym ('d, 'f) outcome = "error option \<times> ('d, 'f) home_manager"

subsection \<open>The collaborators' calls\<close>

text \<open>
  Of these calls only \<^verbatim>\<open>write_points\<close> is modelled as one that may raise. The
  assignment to a value's data goes to the device through the library and is recorded as
  such; what the library's live view of the nodes shows afterwards, and after
  \<^verbatim>\<open>network.stop()\<close>, is the library's affair (see \<open>NetworkChange\<close> below).
\<close>

definition logger_info :: "string \<Rightarrow> ('d, 'f) home_manager \<Rightarrow> ('d, 'f) home_manager" where
  "logger_info fmt s = s\<lparr>events := events s @ [LogInfo fmt]\<rparr>"

definition timer_start :: "nat \<Rightarrow> ('d, 'f) home_manager \<Rightarrow> ('d, 'f) home_manager" where
  "timer_start t s = s\<lparr>pending := pending s + 1, events := events s @ [TimerArm t]\<rparr>"

definition write_points ::
  "('d, 'f) env \<Rightarrow> 'f point list \<Rightarrow> ('d, 'f) home_manager \<Rightarrow> ('d, 'f) outcome" where
  "write_points env ps s =
     (if write_ok env (wcalls s)
      then (None, s\<lparr>wcalls := wcalls s + 1, events := events s @ [WritePoints ps]\<rparr>)
      else (Some SinkError, s\<lparr>wcalls := wcalls s + 1, events := events s @ [WriteRaised ps]\<rparr>))"

definition set_data :: "int \<Rightarrow> int \<Rightarrow> int \<Rightarrow> ('d, 'f) home_manager \<Rightarrow> ('d, 'f) home_manager" where
  "set_data n k v s = s\<lparr>events := events s @ [SetData n k v]\<rparr>"

definition network_start :: "('d, 'f) home_manager \<Rightarrow> ('d, 'f) home_manager" where
  "network_start s = s\<lparr>lifecycle := Started, events := events s @ [NetworkStart]\<rparr>"

definition network_stop :: "('d, 'f) home_manager \<Rightarrow> ('d, 'f) home_manager" where
  "network_stop s = s\<lparr>lifecycle := Stopped, events := events s @ [NetworkStop]\<rparr>"

subsection \<open>The functions of the module\<close>

text \<open>\<^verbatim>\<open>ozw_debug\<close>: eight lines of log, read from the controller.\<close>

definition ozw_debug :: "('d, 'f) home_manager \<Rightarrow> ('d, 'f) home_manager" where
  "ozw_debug s =
     logger_info ''------------------------------------------------------------''
    (logger_info ''Nodes in network : {}''
    (logger_info ''Controller node version : {}''
    (logger_info ''Controller node id : {}''
    (logger_info ''Network home id : {}''
    (logger_info ''Use ZWave library : {}''
    (logger_info ''Use python library : {}''
    (logger_info ''Use openzwave library : {}''
    (logger_info ''------------------------------------------------------------'' s))))))))"

text \<open>
  \<^verbatim>\<open>value_refresh_to_influxdb_json\<close>. The dictionary display is evaluated in order:
  the tags, then the clock is read, then \<^verbatim>\<open>float(val.data)\<close>, which may raise.
\<close>

definition value_refresh_to_influxdb_json ::
  "('d, 'f) env \<Rightarrow> 'd zwave_node \<Rightarrow> 'd zwave_value \<Rightarrow> ('d, 'f) home_manager
     \<Rightarrow> (error + 'f point list) \<times> ('d, 'f) home_manager" where
  "value_refresh_to_influxdb_json env node val s =
     (let now = asctime env (clock s);
          s' = s\<lparr>clock := clock s + 1\<rparr>
      in case py_float env (data val) of
           Inl e \<Rightarrow> (Inl e, s')
         | Inr x \<Rightarrow>
             (Inr [\<lparr>measurement = ''value_refresh'',
                    tags = [(''id_on_network'', JStr (id_on_network val)),
                            (''home_id'', JInt (home_id node)),
                            (''node_id'', JInt (node_id node)),
                            (''value_id'', JInt (value_id val)),
                            (''manufacturer_id'', JStr (manufacturer_id node)),
                            (''product_id'', JStr (product_id node)),
                            (''label'', JStr (label val))],
                    time = now,
                    fields' = [(''data'', JFloat x),
                               (''units'', JStr (units val)),
                               (''type'', JStr ''none''),
                               (''type_val'', JInt 0)]\<rparr>], s'))"

text \<open>\<^verbatim>\<open>HomeManager.start\<close>.\<close>

definition start :: "('d, 'f) home_manager \<Rightarrow> ('d, 'f) outcome" where
  "start s = (None, network_start (logger_info ''Starting network...'' s))"

text \<open>
  \<^verbatim>\<open>HomeManager.stop\<close>: both subscripts of
  \<^verbatim>\<open>self.network.nodes[3].values[CONFIG_NUMBER]\<close> raise on a missing key.
\<close>

definition stop :: "('d, 'f) home_manager \<Rightarrow> ('d, 'f) outcome" where
  "stop s =
     (let s1 = logger_info ''Stopping network...'' s
      in case dict_get (nodes s1) 3 of
           Inl e \<Rightarrow> (Some e, s1)
         | Inr n \<Rightarrow>
             (case dict_get (values' n) CONFIG_NUMBER of
                Inl e \<Rightarrow> (Some e, s1)
              | Inr v \<Rightarrow>
                  (None, logger_info ''Stopped''
                           (network_stop (set_data 3 CONFIG_NUMBER 3600 s1)))))"

text \<open>
  \<^verbatim>\<open>HomeManager.is_sensor\<close>. \<^verbatim>\<open>not len(...) is 0\<close> parses as
  \<^verbatim>\<open>not (len(...) is 0)\<close>, and CPython shares the small integers, so the test is
  that the length is not zero.
\<close>

definition is_sensor :: "'d zwave_node \<Rightarrow> bool" where
  "is_sensor node \<longleftrightarrow> isinstance_ZWaveNodeSensor node \<and> length (get_sensors node) \<noteq> 0"

definition labels_to_be_polled :: "string set" where
  "labels_to_be_polled =
     {''Luminance'', ''Relative Humidity'', ''Temperature'', ''Ultraviolet'',
      ''Alarm Level'', ''Burglar''}"

text \<open>
  The inner loop of \<^verbatim>\<open>start_polling\<close>, over the keys \<open>val_ids\<close> of
  \<^verbatim>\<open>self.network.nodes[node_id].values\<close>. Each round subscripts the network again,
  as the source does; \<open>node\<close> is the one the outer loop holds.
\<close>

fun poll_values ::
  "('d, 'f) env \<Rightarrow> 'd zwave_node \<Rightarrow> int \<Rightarrow> int list \<Rightarrow> ('d, 'f) home_manager
     \<Rightarrow> ('d, 'f) outcome" where
  "poll_values env node nid [] s = (None, s)"
| "poll_values env node nid (val_id # val_ids) s =
     (case dict_get (nodes s) nid of
        Inl e \<Rightarrow> (Some e, s)
      | Inr n \<Rightarrow>
          (case dict_get (values' n) val_id of
             Inl e \<Rightarrow> (Some e, s)
           | Inr val \<Rightarrow>
               if label val \<in> labels_to_be_polled
               then (case value_refresh_to_influxdb_json env node val
                            (logger_info ''Received value refresh %s: %s'' s) of
                       (Inl e, s2) \<Rightarrow> (Some e, s2)
                     | (Inr ps, s2) \<Rightarrow>
                         (case write_points env ps s2 of
                            (Some e, s3) \<Rightarrow> (Some e, s3)
                          | (None, s3) \<Rightarrow> poll_values env node nid val_ids s3))
               else poll_values env node nid val_ids s))"

text \<open>The outer loop, over \<^verbatim>\<open>self.network.nodes.items()\<close>.\<close>

fun poll_nodes ::
  "('d, 'f) env \<Rightarrow> (int \<times> 'd zwave_node) list \<Rightarrow> ('d, 'f) home_manager
     \<Rightarrow> ('d, 'f) outcome" where
  "poll_nodes env [] s = (None, s)"
| "poll_nodes env ((nid, node) # items) s =
     (if is_sensor node
      then (case dict_get (nodes s) nid of
              Inl e \<Rightarrow> (Some e, s)
            | Inr n \<Rightarrow>
                (case poll_values env node nid (map fst (values' n)) s of
                   (Some e, s') \<Rightarrow> (Some e, s')
                 | (None, s') \<Rightarrow> poll_nodes env items s'))
      else poll_nodes env items s)"

text \<open>\<^verbatim>\<open>HomeManager.start_polling\<close>: the timer is armed first, then the loops run.\<close>

definition start_polling :: "('d, 'f) env \<Rightarrow> ('d, 'f) home_manager \<Rightarrow> ('d, 'f) outcome" where
  "start_polling env s =
     (let s1 = timer_start TIME_INTERVAL s in poll_nodes env (nodes s1) s1)"

text \<open>
  \<^verbatim>\<open>HomeManager.signal_network_ready\<close>. The handler uses its argument in the identity
  test only, so a notification is the identity \<open>network\<close> of the object it carries.
\<close>

definition signal_network_ready ::
  "('d, 'f) env \<Rightarrow> nat \<Rightarrow> ('d, 'f) home_manager \<Rightarrow> ('d, 'f) outcome" where
  "signal_network_ready env network s =
     (if network_id s \<noteq> network then (None, s)
      else
        let s1 = logger_info ''Network is ready!'' (ozw_debug s)
        in case dict_get (nodes s1) 3 of
             Inl e \<Rightarrow> (Some e, s1)
           | Inr n \<Rightarrow>
               (case dict_get (values' n) CONFIG_NUMBER of
                  Inl e \<Rightarrow> (Some e, s1)
                | Inr v \<Rightarrow> start_polling env (set_data 3 CONFIG_NUMBER 15 s1)))"

section \<open>Vocabulary for the properties\<close>

subsection \<open>Reading a trace\<close>

text \<open>
  \<open>written\<close> lists the point lists of the calls of \<^verbatim>\<open>write_points\<close> that returned,
  \<open>attempted\<close> those of all its calls, \<open>config_writes\<close> the assignments to a
  value's data as (node key, value key, new data), and \<open>timer_arms\<close> the delays of the
  timers armed, each in the order of the trace.
\<close>

fun written :: "'f event list \<Rightarrow> 'f point list list" where
  "written [] = []"
| "written (WritePoints ps # es) = ps # written es"
| "written (e # es) = written es"

fun attempted :: "'f event list \<Rightarrow> 'f point list list" where
  "attempted [] = []"
| "attempted (WritePoints ps # es) = ps # attempted es"
| "attempted (WriteRaised ps # es) = ps # attempted es"
| "attempted (e # es) = attempted es"

fun config_writes :: "'f event list \<Rightarrow> (int \<times> int \<times> int) list" where
  "config_writes [] = []"
| "config_writes (SetData n k v # es) = (n, k, v) # config_writes es"
| "config_writes (e # es) = config_writes es"

fun timer_arms :: "'f event list \<Rightarrow> nat list" where
  "timer_arms [] = []"
| "timer_arms (TimerArm t # es) = t # timer_arms es"
| "timer_arms (e # es) = timer_arms es"

subsection \<open>The pairs a cycle polls\<close>

text \<open>
  \<open>whitelisted node\<close> are the entries of the node's values whose label is one of
  \<open>labels_to_be_polled\<close>. \<open>polled items\<close> lists, in iteration order, every pair of a
  node that \<open>is_sensor\<close> accepts and one of its whitelisted values. \<open>wf_network\<close>
  says that the network's dictionaries are dictionaries. \<open>config_present\<close> says that
  \<^verbatim>\<open>nodes[3].values[CONFIG_NUMBER]\<close> exists.
\<close>

definition whitelisted :: "'d zwave_node \<Rightarrow> (int \<times> 'd zwave_value) list" where
  "whitelisted node = filter (\<lambda>(k, v). label v \<in> labels_to_be_polled) (values' node)"

definition polled :: "(int \<times> 'd zwave_node) list \<Rightarrow> ('d zwave_node \<times> 'd zwave_value) list" where
  "polled items =
     concat (map (\<lambda>(nid, node). if is_sensor node then map (\<lambda>(k, v). (node, v)) (whitelisted node) else [])
               items)"

definition wf_network :: "('d, 'f) home_manager \<Rightarrow> bool" where
  "wf_network s \<longleftrightarrow> py_dict (nodes s) \<and> list_all (\<lambda>(k, n). py_dict (values' n)) (nodes s)"

definition config_present :: "(int \<times> 'd zwave_node) list \<Rightarrow> bool" where
  "config_present items =
     (case map_of items 3 of None \<Rightarrow> False | Some n \<Rightarrow> map_of (values' n) CONFIG_NUMBER \<noteq> None)"

text \<open>
  \<open>emit\<close> is the body of the innermost \<^verbatim>\<open>if\<close> of \<^verbatim>\<open>start_polling\<close> (the log line
  and the write of one value), and \<open>emit_all\<close> runs it over a list of pairs until one
  raises. The two loops are shown below to be \<open>emit_all\<close> over \<open>polled\<close>.
\<close>

definition emit ::
  "('d, 'f) env \<Rightarrow> 'd zwave_node \<Rightarrow> 'd zwave_value \<Rightarrow> ('d, 'f) home_manager \<Rightarrow> ('d, 'f) outcome" where
  "emit env node val s =
     (case value_refresh_to_influxdb_json env node val
             (logger_info ''Received value refresh %s: %s'' s) of
        (Inl e, s2) \<Rightarrow> (Some e, s2)
      | (Inr ps, s2) \<Rightarrow> write_points env ps s2)"

fun emit_all ::
  "('d, 'f) env \<Rightarrow> ('d zwave_node \<times> 'd zwave_value) list \<Rightarrow> ('d, 'f) home_manager \<Rightarrow> ('d, 'f) outcome" where
  "emit_all env [] s = (None, s)"
| "emit_all env ((node, val) # ps) s =
     (case emit env node val s of
        (Some e, s') \<Rightarrow> (Some e, s')
      | (None, s') \<Rightarrow> emit_all env ps s')"

text \<open>
  \<open>refresh_point env now node val\<close> is the point that
  \<^verbatim>\<open>value_refresh_to_influxdb_json\<close> builds at clock reading \<open>now\<close> when
  \<^verbatim>\<open>float(val.data)\<close> returns, and \<open>cycle_trace env c ps\<close> the events of a cycle
  over the pairs \<open>ps\<close> in which nothing raises, the clock having been read \<open>c\<close> times.
\<close>

definition refresh_point :: "('d, 'f) env \<Rightarrow> string \<Rightarrow> 'd zwave_node \<Rightarrow> 'd zwave_value \<Rightarrow> 'f point" where
  "refresh_point env now node val =
     \<lparr>measurement = ''value_refresh'',
      tags = [(''id_on_network'', JStr (id_on_network val)),
              (''home_id'', JInt (home_id node)),
              (''node_id'', JInt (node_id node)),
              (''value_id'', JInt (value_id val)),
              (''manufacturer_id'', JStr (manufacturer_id node)),
              (''product_id'', JStr (product_id node)),
              (''label'', JStr (label val))],
      time = now,
      fields' = [(''data'', JFloat (projr (py_float env (data val)))),
                 (''units'', JStr (units val)),
                 (''type'', JStr ''none''),
                 (''type_val'', JInt 0)]\<rparr>"

fun cycle_trace ::
  "('d, 'f) env \<Rightarrow> nat \<Rightarrow> ('d zwave_node \<times> 'd zwave_value) list \<Rightarrow> 'f event list" where
  "cycle_trace env c [] = []"
| "cycle_trace env c ((node, val) # ps) =
     LogInfo ''Received value refresh %s: %s''
       # WritePoints [refresh_point env (asctime env c) node val]
       # cycle_trace env (Suc c) ps"

text \<open>
  \<open>accepted_trace env c ps\<close> are the events of a cycle over the pairs \<open>ps\<close> in which
  the sink accepts every write: each pair is logged and written until a
  \<^verbatim>\<open>float()\<close> conversion raises, after the log line of its pair.
\<close>

fun accepted_trace ::
  "('d, 'f) env \<Rightarrow> nat \<Rightarrow> ('d zwave_node \<times> 'd zwave_value) list \<Rightarrow> 'f event list" where
  "accepted_trace env c [] = []"
| "accepted_trace env c ((node, val) # ps) =
     (if isl (py_float env (data val))
      then [LogInfo ''Received value refresh %s: %s'']
      else LogInfo ''Received value refresh %s: %s''
             # WritePoints [refresh_point env (asctime env c) node val]
             # accepted_trace env (Suc c) ps)"

text \<open>
  \<open>of_whitelisted_value items p\<close>: the point \<open>p\<close> carries the label, the value id and
  the id on the network of a whitelisted value of some node of \<open>items\<close>.
  \<open>refresh_event\<close> holds of the events the two loops may add to the trace.
\<close>

definition of_whitelisted_value :: "(int \<times> 'd zwave_node) list \<Rightarrow> 'f point \<Rightarrow> bool" where
  "of_whitelisted_value items p =
     list_ex (\<lambda>(nid, n). list_ex (\<lambda>(k, v).
        label v \<in> labels_to_be_polled \<and>
        map_of (tags p) ''label'' = Some (JStr (label v)) \<and>
        map_of (tags p) ''value_id'' = Some (JInt (value_id v)) \<and>
        map_of (tags p) ''id_on_network'' = Some (JStr (id_on_network v))) (values' n)) items"

fun refresh_event :: "(int \<times> 'd zwave_node) list \<Rightarrow> 'f event \<Rightarrow> bool" where
  "refresh_event items (LogInfo fmt) = True"
| "refresh_event items (WritePoints ps) = list_all (of_whitelisted_value items) ps"
| "refresh_event items (WriteRaised ps) = list_all (of_whitelisted_value items) ps"
| "refresh_event items e = False"

text \<open>
  The lines that the ready callback logs before it touches the device.
\<close>

definition ready_log :: "'f event list" where
  "ready_log =
     [LogInfo ''------------------------------------------------------------'',
      LogInfo ''Use openzwave library : {}'',
      LogInfo ''Use python library : {}'',
      LogInfo ''Use ZWave library : {}'',
      LogInfo ''Network home id : {}'',
      LogInfo ''Controller node id : {}'',
      LogInfo ''Controller node version : {}'',
      LogInfo ''Nodes in network : {}'',
      LogInfo ''------------------------------------------------------------'',
      LogInfo ''Network is ready!'']"

subsection \<open>Calls over time\<close>

text \<open>
  What can happen to a manager, one call at a time: \<^verbatim>\<open>start()\<close>, a ``network ready''
  notification, \<^verbatim>\<open>stop()\<close> (directly or through \<^verbatim>\<open>stop_signal\<close>), an armed timer
  that fires and so calls \<^verbatim>\<open>start_polling\<close>, and the library changing its live view
  of the nodes. An exception ends the call it is raised in and nothing else.
\<close>

datatype 'd input =
    CallStart
  | SignalNetworkReady nat
  | CallStop
  | TimerFires
  | NetworkChange "(int \<times> 'd zwave_node) list"

definition step :: "('d, 'f) env \<Rightarrow> 'd input \<Rightarrow> ('d, 'f) home_manager \<Rightarrow> ('d, 'f) home_manager" where
  "step env i s =
     (case i of
        CallStart \<Rightarrow> snd (start s)
      | SignalNetworkReady network \<Rightarrow> snd (signal_network_ready env network s)
      | CallStop \<Rightarrow> snd (stop s)
      | TimerFires \<Rightarrow>
          if pending s = 0 then s
          else snd (start_polling env (s\<lparr>pending := pending s - 1\<rparr>))
      | NetworkChange items \<Rightarrow> s\<lparr>nodes := items\<rparr>)"

fun run :: "('d, 'f) env \<Rightarrow> 'd input list \<Rightarrow> ('d, 'f) home_manager \<Rightarrow> ('d, 'f) home_manager" where
  "run env [] s = s"
| "run env (i # is) s = run env is (step env i s)"

text \<open>
  \<open>cycles env n s\<close> is the state after \<open>n\<close> poll cycles in a row, \<open>cycle_points env s\<close>
  the points that a cycle started in \<open>s\<close> gets written, and \<open>erase_time\<close> blanks a
  point's timestamp.
\<close>

fun cycles :: "('d, 'f) env \<Rightarrow> nat \<Rightarrow> ('d, 'f) home_manager \<Rightarrow> ('d, 'f) home_manager" where
  "cycles env 0 s = s"
| "cycles env (Suc n) s = snd (start_polling env (cycles env n s))"

definition cycle_points :: "('d, 'f) env \<Rightarrow> ('d, 'f) home_manager \<Rightarrow> 'f point list" where
  "cycle_points env s =
     concat (written (drop (length (events s)) (events (snd (start_polling env s)))))"

definition erase_time :: "'f point \<Rightarrow> 'f point" where
  "erase_time p = p\<lparr>time := []\<rparr>"

subsection \<open>A small network\<close>

text \<open>
  An environment in which \<^verbatim>\<open>float()\<close> is applied to Python floats (and returns them)
  and the sink accepts every write, never one, or the first \<open>n\<close>; a multisensor as
  node 3 with a temperature, a humidity and its poll interval setting; a power meter as
  node 5; the manager as \<^verbatim>\<open>__init__\<close> leaves it (\<open>fresh\<close>) and with these two nodes known
  (\<open>home\<close>).
\<close>

definition float_of_float :: "real \<Rightarrow> error + real" where
  "float_of_float x = Inr x"

definition sink_up :: "(real, real) env" where
  "sink_up = \<lparr>py_float = float_of_float, asctime = (\<lambda>k. ''Tue Nov  3 19:02:00 2026''),
              write_ok = (\<lambda>k. True)\<rparr>"

definition sink_down :: "(real, real) env" where
  "sink_down = sink_up\<lparr>write_ok := (\<lambda>k. False)\<rparr>"

definition sink_up_for :: "nat \<Rightarrow> (real, real) env" where
  "sink_up_for n = sink_up\<lparr>write_ok := (\<lambda>k. k < n)\<rparr>"

definition temperature_value :: "string \<Rightarrow> int \<Rightarrow> real zwave_value" where
  "temperature_value ion vid =
     \<lparr>id_on_network = ion, value_id = vid, label = ''Temperature'', data = 21.5, units = ''C''\<rparr>"

definition sensor3 :: "int \<Rightarrow> string \<Rightarrow> int \<Rightarrow> real zwave_node" where
  "sensor3 h ion vid =
     \<lparr>home_id = h, node_id = 3, manufacturer_id = ''0x0086'', product_id = ''0x0059'',
      isinstance_ZWaveNodeSensor = True,
      get_sensors = [(vid, temperature_value ion vid)],
      values' = [(vid, temperature_value ion vid)]\<rparr>"

definition temperature :: "real zwave_value" where
  "temperature = temperature_value ''f00dcafe.3.49.1.1'' 1"

definition humidity :: "real zwave_value" where
  "humidity = \<lparr>id_on_network = ''f00dcafe.3.49.1.5'', value_id = 2, label = ''Relative Humidity'',
               data = 40, units = ''%''\<rparr>"

definition group1_interval :: "real zwave_value" where
  "group1_interval = \<lparr>id_on_network = ''f00dcafe.3.70.1.111'', value_id = CONFIG_NUMBER,
               label = ''Group 1 Interval'', data = 3600, units = ''seconds''\<rparr>"

definition power :: "real zwave_value" where
  "power = \<lparr>id_on_network = ''f00dcafe.5.32.1.8'', value_id = 4, label = ''Power'',
            data = 12.5, units = ''W''\<rparr>"

definition multisensor :: "real zwave_node" where
  "multisensor =
     \<lparr>home_id = 4027435774, node_id = 3, manufacturer_id = ''0x0086'', product_id = ''0x0064'',
      isinstance_ZWaveNodeSensor = True,
      get_sensors = [(1, temperature), (2, humidity)],
      values' = [(1, temperature), (2, humidity), (CONFIG_NUMBER, group1_interval)]\<rparr>"

definition power_meter :: "real zwave_node" where
  "power_meter =
     \<lparr>home_id = 4027435774, node_id = 5, manufacturer_id = ''0x0086'', product_id = ''0x0060'',
      isinstance_ZWaveNodeSensor = True,
      get_sensors = [(4, power)],
      values' = [(4, power)]\<rparr>"

definition fresh :: "(real, real) home_manager" where
  "fresh = \<lparr>network_id = 1, lifecycle = NotStarted, nodes = [], pending = 0, clock = 0,
            wcalls = 0, events = []\<rparr>"

definition home :: "(real, real) home_manager" where
  "home = fresh\<lparr>nodes := [(3, multisensor), (5, power_meter)]\<rparr>"

section \<open>Lemmas\<close>

lemmas scenario_defs =
  float_of_float_def sink_up_def sink_down_def sink_up_for_def temperature_value_def sensor3_def
  temperature_def humidity_def group1_interval_def power_def multisensor_def power_meter_def
  fresh_def home_def

lemmas model_defs =
  TIME_INTERVAL_def CONFIG_NUMBER_def py_dict_def dict_get_def logger_info_def timer_start_def
  write_points_def set_data_def network_start_def network_stop_def ozw_debug_def
  value_refresh_to_influxdb_json_def start_def stop_def is_sensor_def labels_to_be_polled_def
  start_polling_def signal_network_ready_def Let_def

subsection \<open>The loops as one pass over the polled pairs\<close>

lemma dict_get_mem: "py_dict d \<Longrightarrow> (k, v) \<in> set d \<Longrightarrow> dict_get d k = Inr v"
  by (simp add: py_dict_def dict_get_def)

lemma nodes_emit [simp]: "nodes (snd (emit env node val s)) = nodes s"
  by (simp add: emit_def value_refresh_to_influxdb_json_def logger_info_def write_points_def
      Let_def split: sum.splits prod.splits)

lemma nodes_emit_all [simp]: "nodes (snd (emit_all env ps s)) = nodes s"
proof (induction ps arbitrary: s)
  case Nil
  show ?case by simp
next
  case (Cons p ps)
  obtain node val where p: "p = (node, val)" by (cases p)
  obtain r s' where e: "emit env node val s = (r, s')" by (cases "emit env node val s")
  have n: "nodes s' = nodes s" using nodes_emit [of env node val s] e by simp
  show ?case
  proof (cases r)
    case None
    then show ?thesis using Cons.IH [of s'] p e n by simp
  next
    case (Some a)
    then show ?thesis using p e n by simp
  qed
qed

lemma emit_all_append:
  "emit_all env (ps @ qs) s =
     (case emit_all env ps s of (Some e, s') \<Rightarrow> (Some e, s') | (None, s') \<Rightarrow> emit_all env qs s')"
  by (induction ps arbitrary: s) (auto split: prod.splits option.splits)

lemma poll_values_emit_all:
  assumes "dict_get (nodes s) nid = Inr n"
      and "set ks \<subseteq> fst ` set (values' n)"
  shows "poll_values env node nid ks s =
           emit_all env
             (map (\<lambda>v. (node, v))
                (filter (\<lambda>v. label v \<in> labels_to_be_polled)
                   (map (\<lambda>k. the (map_of (values' n) k)) ks))) s"
  using assms
proof (induction ks arbitrary: s)
  case Nil
  show ?case by simp
next
  case (Cons k ks)
  from Cons.prems(2) obtain v where v: "map_of (values' n) k = Some v"
    by (cases "map_of (values' n) k") (auto simp: map_of_eq_None_iff)
  have g: "dict_get (values' n) k = Inr v" by (simp add: dict_get_def v)
  have ks: "set ks \<subseteq> fst ` set (values' n)" using Cons.prems(2) by simp
  show ?case
  proof (cases "label v \<in> labels_to_be_polled")
    case False
    then show ?thesis using Cons.IH [OF Cons.prems(1) ks] Cons.prems(1) g v by simp
  next
    case True
    obtain r s' where e: "emit env node v s = (r, s')" by (cases "emit env node v s")
    have n: "nodes s' = nodes s" using nodes_emit [of env node v s] e by simp
    have step: "poll_values env node nid (k # ks) s =
                  (case emit env node v s of (Some e, s') \<Rightarrow> (Some e, s')
                   | (None, s') \<Rightarrow> poll_values env node nid ks s')"
      using Cons.prems(1) g True
      by (simp add: emit_def split: prod.splits sum.splits option.splits)
    show ?thesis
    proof (cases r)
      case None
      have "dict_get (nodes s') nid = Inr n" using n Cons.prems(1) by simp
      from Cons.IH [OF this ks] show ?thesis using step e None v True by simp
    next
      case (Some a)
      then show ?thesis using step e v True by simp
    qed
  qed
qed

lemma map_the_map_of: "distinct (map fst d) \<Longrightarrow> map (\<lambda>k. the (map_of d k)) (map fst d) = map snd d"
proof (induction d)
  case Nil
  show ?case by simp
next
  case (Cons a d)
  obtain k v where a: "a = (k, v)" by (cases a)
  have "\<forall>x\<in>set d. fst x \<noteq> k" using Cons.prems a by auto
  then have "map (\<lambda>k'. the (map_of ((k, v) # d) k')) (map fst d) = map (\<lambda>k'. the (map_of d k')) (map fst d)"
    by (auto simp: map_eq_conv)
  then show ?case using Cons a by simp
qed

lemma poll_values_whitelisted:
  assumes "dict_get (nodes s) nid = Inr n" and "py_dict (values' n)"
  shows "poll_values env node nid (map fst (values' n)) s =
           emit_all env (map (\<lambda>(k, v). (node, v))
              (filter (\<lambda>(k, v). label v \<in> labels_to_be_polled) (values' n))) s"
proof -
  have "map (\<lambda>v. (node, v)) (filter (\<lambda>v. label v \<in> labels_to_be_polled) (map snd (values' n)))
          = map (\<lambda>(k, v). (node, v)) (filter (\<lambda>(k, v). label v \<in> labels_to_be_polled) (values' n))"
    by (induction "values' n") (auto simp: filter_map o_def split_def)
  moreover have "map (\<lambda>k. the (map_of (values' n) k)) (map fst (values' n)) = map snd (values' n)"
    using assms(2) by (intro map_the_map_of) (simp add: py_dict_def)
  moreover have "set (map fst (values' n)) \<subseteq> fst ` set (values' n)" by simp
  ultimately show ?thesis
    using poll_values_emit_all [OF assms(1), of "map fst (values' n)" env node]
    by (simp only:)
qed

lemma poll_nodes_emit_all:
  assumes "py_dict (nodes s)" and "set items \<subseteq> set (nodes s)"
      and "list_all (\<lambda>(k, n). py_dict (values' n)) items"
  shows "poll_nodes env items s = emit_all env (polled items) s"
  using assms
proof (induction items arbitrary: s)
  case Nil
  show ?case by (simp add: polled_def)
next
  case (Cons a items)
  obtain nid node where a: "a = (nid, node)" by (cases a)
  have sub: "set items \<subseteq> set (nodes s)" and wf: "list_all (\<lambda>(k, n). py_dict (values' n)) items"
    and vs: "py_dict (values' node)" and mem: "(nid, node) \<in> set (nodes s)"
    using Cons.prems a by auto
  have pc: "polled (a # items) =
     (if is_sensor node then map (\<lambda>(k, v). (node, v)) (whitelisted node) else []) @ polled items"
    by (simp add: polled_def a)
  show ?case
  proof (cases "is_sensor node")
    case False
    then show ?thesis using Cons.IH [OF Cons.prems(1) sub wf] a pc by simp
  next
    case True
    have g: "dict_get (nodes s) nid = Inr node" using dict_get_mem [OF Cons.prems(1) mem] .
    let ?ws = "map (\<lambda>(k, v). (node, v)) (whitelisted node)"
    have pv: "poll_values env node nid (map fst (values' node)) s = emit_all env ?ws s"
      using poll_values_whitelisted [OF g vs] by (simp add: whitelisted_def)
    obtain r s' where e: "emit_all env ?ws s = (r, s')" by (cases "emit_all env ?ws s")
    have n: "nodes s' = nodes s" using nodes_emit_all [of env ?ws s] e by simp
    show ?thesis
    proof (cases r)
      case None
      have "poll_nodes env items s' = emit_all env (polled items) s'"
        using Cons.IH [of s'] Cons.prems(1) sub wf n by simp
      then show ?thesis using a True g pv e None pc by (simp add: emit_all_append)
    next
      case (Some x)
      then show ?thesis using a True g pv e pc by (simp add: emit_all_append)
    qed
  qed
qed

lemma start_polling_emit_all:
  assumes "wf_network s"
  shows "start_polling env s = emit_all env (polled (nodes s)) (timer_start TIME_INTERVAL s)"
proof -
  have n: "nodes (timer_start TIME_INTERVAL s) = nodes s" by (simp add: timer_start_def)
  show ?thesis
    using poll_nodes_emit_all [of "timer_start TIME_INTERVAL s" "nodes s" env] assms n
    by (simp add: start_polling_def wf_network_def Let_def)
qed

subsection \<open>A cycle in which nothing raises, and one in which a write raises\<close>

lemma emit_ok:
  assumes "\<not> isl (py_float env (data val))" and "write_ok env (wcalls s)"
  shows "emit env node val s =
           (None, s\<lparr>clock := clock s + 1, wcalls := wcalls s + 1,
                    events := events s @ [LogInfo ''Received value refresh %s: %s'',
                       WritePoints [refresh_point env (asctime env (clock s)) node val]]\<rparr>)"
proof -
  obtain x where x: "py_float env (data val) = Inr x"
    using assms(1) by (cases "py_float env (data val)") auto
  show ?thesis
    using assms(2)
    by (simp add: emit_def value_refresh_to_influxdb_json_def logger_info_def write_points_def
        refresh_point_def x Let_def)
qed

lemma emit_raises:
  assumes "\<not> isl (py_float env (data val))" and "\<not> write_ok env (wcalls s)"
  shows "emit env node val s =
           (Some SinkError, s\<lparr>clock := clock s + 1, wcalls := wcalls s + 1,
                    events := events s @ [LogInfo ''Received value refresh %s: %s'',
                       WriteRaised [refresh_point env (asctime env (clock s)) node val]]\<rparr>)"
proof -
  obtain x where x: "py_float env (data val) = Inr x"
    using assms(1) by (cases "py_float env (data val)") auto
  show ?thesis
    using assms(2)
    by (simp add: emit_def value_refresh_to_influxdb_json_def logger_info_def write_points_def
        refresh_point_def x Let_def)
qed

lemma emit_all_ok:
  assumes "list_all (\<lambda>(n, v). \<not> isl (py_float env (data v))) ps"
      and "\<forall>k<length ps. write_ok env (wcalls s + k)"
  shows "emit_all env ps s =
           (None, s\<lparr>clock := clock s + length ps, wcalls := wcalls s + length ps,
                    events := events s @ cycle_trace env (clock s) ps\<rparr>)"
  using assms
proof (induction ps arbitrary: s)
  case Nil
  show ?case by simp
next
  case (Cons p ps)
  obtain node val where p: "p = (node, val)" by (cases p)
  have c: "\<not> isl (py_float env (data val))" and cs: "list_all (\<lambda>(n, v). \<not> isl (py_float env (data v))) ps"
    using Cons.prems(1) p by auto
  have w: "write_ok env (wcalls s)" using Cons.prems(2) by force
  let ?s' = "s\<lparr>clock := clock s + 1, wcalls := wcalls s + 1,
                    events := events s @ [LogInfo ''Received value refresh %s: %s'',
                       WritePoints [refresh_point env (asctime env (clock s)) node val]]\<rparr>"
  have ws: "\<forall>k<length ps. write_ok env (wcalls ?s' + k)"
  proof (intro allI impI)
    fix k assume "k < length ps"
    then have "Suc k < length (p # ps)" by simp
    with Cons.prems(2) have "write_ok env (wcalls s + Suc k)" by blast
    then show "write_ok env (wcalls ?s' + k)" by simp
  qed
  show ?case
    using Cons.IH [OF cs ws] emit_ok [OF c w, of node] p by simp
qed

lemma emit_all_raises:
  assumes "list_all (\<lambda>(n, v). \<not> isl (py_float env (data v))) (take (Suc j) ps)"
      and "j < length ps"
      and "\<forall>k<j. write_ok env (wcalls s + k)"
      and "\<not> write_ok env (wcalls s + j)"
  shows "emit_all env ps s =
           (Some SinkError, s\<lparr>clock := clock s + j + 1, wcalls := wcalls s + j + 1,
                    events := events s @ cycle_trace env (clock s) (take j ps)
                       @ [LogInfo ''Received value refresh %s: %s'',
                          WriteRaised [refresh_point env (asctime env (clock s + j))
                                         (fst (ps ! j)) (snd (ps ! j))]]\<rparr>)"
  using assms
proof (induction ps arbitrary: s j)
  case Nil
  then show ?case by simp
next
  case (Cons p ps)
  obtain node val where p: "p = (node, val)" by (cases p)
  have c: "\<not> isl (py_float env (data val))"
    using Cons.prems(1) p by simp
  show ?case
  proof (cases j)
    case 0
    then have "\<not> write_ok env (wcalls s)" using Cons.prems(4) by simp
    from emit_raises [OF c this, of node] show ?thesis using 0 p by simp
  next
    case (Suc i)
    have w: "write_ok env (wcalls s)" using Cons.prems(3) Suc by force
    let ?s' = "s\<lparr>clock := clock s + 1, wcalls := wcalls s + 1,
                    events := events s @ [LogInfo ''Received value refresh %s: %s'',
                       WritePoints [refresh_point env (asctime env (clock s)) node val]]\<rparr>"
    have i: "i < length ps" using Cons.prems(2) Suc by simp
    have cs: "list_all (\<lambda>(n, v). \<not> isl (py_float env (data v))) (take (Suc i) ps)"
      using Cons.prems(1) Suc by simp
    have ws: "\<forall>k<i. write_ok env (wcalls ?s' + k)"
    proof (intro allI impI)
      fix k assume "k < i"
      then have "Suc k < j" using Suc by simp
      with Cons.prems(3) have "write_ok env (wcalls s + Suc k)" by blast
      then show "write_ok env (wcalls ?s' + k)" by simp
    qed
    have nw: "\<not> write_ok env (wcalls ?s' + i)" using Cons.prems(4) Suc by simp
    show ?thesis
      using Cons.IH [OF cs i ws nw] emit_ok [OF c w, of node] p Suc by simp
  qed
qed

lemma written_append: "written (es @ fs) = written es @ written fs"
  by (induction es rule: written.induct) auto

lemma length_written_cycle_trace: "length (written (cycle_trace env c ps)) = length ps"
  by (induction env c ps rule: cycle_trace.induct) auto

lemma nth_written_cycle_trace:
  "i < length ps \<Longrightarrow>
     written (cycle_trace env c ps) ! i =
       [refresh_point env (asctime env (c + i)) (fst (ps ! i)) (snd (ps ! i))]"
proof (induction env c ps arbitrary: i rule: cycle_trace.induct)
  case (1 env c)
  then show ?case by simp
next
  case (2 env c node val ps)
  then show ?case by (cases i) auto
qed

lemma start_polling_ok:
  assumes "wf_network s"
      and "list_all (\<lambda>(node, val). \<not> isl (py_float env (data val))) (polled (nodes s))"
      and "\<forall>k<length (polled (nodes s)). write_ok env (wcalls s + k)"
  shows "start_polling env s =
           (None, s\<lparr>pending := pending s + 1,
                    clock := clock s + length (polled (nodes s)),
                    wcalls := wcalls s + length (polled (nodes s)),
                    events := events s @ TimerArm TIME_INTERVAL
                                # cycle_trace env (clock s) (polled (nodes s))\<rparr>)"
proof -
  let ?s1 = "timer_start TIME_INTERVAL s"
  have w: "\<forall>k<length (polled (nodes s)). write_ok env (wcalls ?s1 + k)"
    using assms(3) by (simp add: timer_start_def)
  show ?thesis
    using start_polling_emit_all [OF assms(1), of env] emit_all_ok [OF assms(2) w]
    by (simp add: timer_start_def)
qed

lemma emit_float_raises:
  assumes "isl (py_float env (data val))"
  shows "\<exists>e. emit env node val s =
           (Some e, s\<lparr>clock := clock s + 1,
                      events := events s @ [LogInfo ''Received value refresh %s: %s'']\<rparr>)"
proof -
  obtain e where "py_float env (data val) = Inl e"
    using assms by (cases "py_float env (data val)") auto
  then show ?thesis
    by (simp add: emit_def value_refresh_to_influxdb_json_def logger_info_def Let_def)
qed

lemma emit_all_accepted:
  assumes "\<forall>k. write_ok env k"
  shows "events (snd (emit_all env ps s)) = events s @ accepted_trace env (clock s) ps"
proof (induction ps arbitrary: s)
  case Nil
  show ?case by simp
next
  case (Cons p ps)
  obtain node val where p: "p = (node, val)" by (cases p)
  show ?case
  proof (cases "isl (py_float env (data val))")
    case True
    from emit_float_raises [OF True, of node s] obtain e where
      "emit env node val s =
         (Some e, s\<lparr>clock := clock s + 1,
                    events := events s @ [LogInfo ''Received value refresh %s: %s'']\<rparr>)"
      by blast
    then show ?thesis using True p by simp
  next
    case False
    have w: "write_ok env (wcalls s)" using assms by simp
    let ?s' = "s\<lparr>clock := clock s + 1, wcalls := wcalls s + 1,
                    events := events s @ [LogInfo ''Received value refresh %s: %s'',
                       WritePoints [refresh_point env (asctime env (clock s)) node val]]\<rparr>"
    show ?thesis
      using Cons.IH [of ?s'] emit_ok [OF False w, of node] False p by simp
  qed
qed

lemma erase_accepted_trace:
  "map erase_time (concat (written (accepted_trace env c ps)))
     = map (\<lambda>(n, v). refresh_point env [] n v)
         (takeWhile (\<lambda>(n, v). \<not> isl (py_float env (data v))) ps)"
  by (induction env c ps rule: accepted_trace.induct)
    (auto simp: erase_time_def refresh_point_def)

lemma nodes_start_polling:
  assumes "wf_network s"
  shows "nodes (snd (start_polling env s)) = nodes s"
  by (simp add: start_polling_emit_all [OF assms] timer_start_def)

lemma cycle_points_accepted:
  assumes "wf_network s" and "\<forall>k. write_ok env k"
  shows "map erase_time (cycle_points env s)
           = map (\<lambda>(n, v). refresh_point env [] n v)
               (takeWhile (\<lambda>(n, v). \<not> isl (py_float env (data v))) (polled (nodes s)))"
proof -
  have "events (snd (start_polling env s))
          = events s @ TimerArm TIME_INTERVAL # accepted_trace env (clock s) (polled (nodes s))"
    using emit_all_accepted [OF assms(2), of "polled (nodes s)" "timer_start TIME_INTERVAL s"]
    by (simp add: start_polling_emit_all [OF assms(1)] timer_start_def)
  then show ?thesis
    by (simp add: cycle_points_def erase_accepted_trace)
qed

lemma nodes_cycles:
  assumes "wf_network s"
  shows "nodes (cycles env i s) = nodes s"
proof (induction i)
  case 0
  show ?case by simp
next
  case (Suc i)
  have "wf_network (cycles env i s)" using assms Suc by (simp add: wf_network_def)
  then show ?case using nodes_start_polling [of "cycles env i s" env] Suc by simp
qed

subsection \<open>What any cycle leaves untouched\<close>

lemma frame_refl:
  "\<exists>c w new. s = s\<lparr>clock := c, wcalls := w, events := events s @ new\<rparr> \<and> list_all P new"
  by (rule exI [of _ "clock s"], rule exI [of _ "wcalls s"], rule exI [of _ "[]"]) simp

lemma emit_frame:
  assumes "dict_get items nid = Inr n" and "dict_get (values' n) k = Inr val"
      and "label val \<in> labels_to_be_polled"
  shows "\<exists>c w new. snd (emit env node val s) = s\<lparr>clock := c, wcalls := w, events := events s @ new\<rparr>
           \<and> list_all (refresh_event items) new"
proof -
  have "(nid, n) \<in> set items" and "(k, val) \<in> set (values' n)"
    using assms(1,2) by (auto simp: dict_get_def split: option.splits dest: map_of_SomeD)
  then have w: "\<And>t x. of_whitelisted_value items
     \<lparr>measurement = ''value_refresh'',
      tags = [(''id_on_network'', JStr (id_on_network val)),
              (''home_id'', JInt (home_id node)),
              (''node_id'', JInt (node_id node)),
              (''value_id'', JInt (value_id val)),
              (''manufacturer_id'', JStr (manufacturer_id node)),
              (''product_id'', JStr (product_id node)),
              (''label'', JStr (label val))],
      time = t,
      fields' = [(''data'', JFloat x),
                 (''units'', JStr (units val)),
                 (''type'', JStr ''none''),
                 (''type_val'', JInt 0)]\<rparr>"
    using assms(3) unfolding of_whitelisted_value_def list_ex_iff by force
  show ?thesis
  proof (cases "py_float env (data val)")
    case (Inl e)
    have "snd (emit env node val s) = s\<lparr>clock := clock s + 1, wcalls := wcalls s,
            events := events s @ [LogInfo ''Received value refresh %s: %s'']\<rparr>"
      by (simp add: emit_def value_refresh_to_influxdb_json_def logger_info_def Inl Let_def)
    moreover have "list_all (refresh_event items) [LogInfo ''Received value refresh %s: %s'']" by simp
    ultimately show ?thesis by blast
  next
    case (Inr x)
    let ?p = "\<lparr>measurement = ''value_refresh'',
      tags = [(''id_on_network'', JStr (id_on_network val)),
              (''home_id'', JInt (home_id node)),
              (''node_id'', JInt (node_id node)),
              (''value_id'', JInt (value_id val)),
              (''manufacturer_id'', JStr (manufacturer_id node)),
              (''product_id'', JStr (product_id node)),
              (''label'', JStr (label val))],
      time = asctime env (clock s),
      fields' = [(''data'', JFloat x),
                 (''units'', JStr (units val)),
                 (''type'', JStr ''none''),
                 (''type_val'', JInt 0)]\<rparr>"
    have "snd (emit env node val s) = s\<lparr>clock := clock s + 1, wcalls := wcalls s + 1,
            events := events s @ [LogInfo ''Received value refresh %s: %s'',
              if write_ok env (wcalls s) then WritePoints [?p] else WriteRaised [?p]]\<rparr>"
      by (simp add: emit_def value_refresh_to_influxdb_json_def logger_info_def write_points_def
          Inr Let_def)
    moreover have "list_all (refresh_event items) [LogInfo ''Received value refresh %s: %s'',
              if write_ok env (wcalls s) then WritePoints [?p] else WriteRaised [?p]]"
      using w by simp
    ultimately show ?thesis by blast
  qed
qed

lemma poll_values_frame:
  "\<exists>c w new. snd (poll_values env node nid ks s) = s\<lparr>clock := c, wcalls := w, events := events s @ new\<rparr>
      \<and> list_all (refresh_event (nodes s)) new"
proof (induction ks arbitrary: s)
  case Nil
  show ?case using frame_refl [of s "refresh_event (nodes s)"] by simp
next
  case (Cons k ks)
  have trivial: "\<exists>c w new. s = s\<lparr>clock := c, wcalls := w, events := events s @ new\<rparr>
      \<and> list_all (refresh_event (nodes s)) new"
    by (rule frame_refl)
  show ?case
  proof (cases "dict_get (nodes s) nid")
    case (Inl e)
    then show ?thesis using trivial by simp
  next
    case n: (Inr n)
    show ?thesis
    proof (cases "dict_get (values' n) k")
      case (Inl e)
      then show ?thesis using trivial n by simp
    next
      case v: (Inr val)
      show ?thesis
      proof (cases "label val \<in> labels_to_be_polled")
        case False
        then show ?thesis using Cons.IH [of s] n v by simp
      next
        case True
        obtain r s' where e: "emit env node val s = (r, s')" by (cases "emit env node val s")
        have step: "poll_values env node nid (k # ks) s =
                  (case emit env node val s of (Some e, s') \<Rightarrow> (Some e, s')
                   | (None, s') \<Rightarrow> poll_values env node nid ks s')"
          using n v True
          by (simp add: emit_def split: prod.splits sum.splits option.splits)
        from emit_frame [OF n v True, of env node s] e
        obtain c w new where s': "s' = s\<lparr>clock := c, wcalls := w, events := events s @ new\<rparr>"
          and new: "list_all (refresh_event (nodes s)) new" by auto
        show ?thesis
        proof (cases r)
          case (Some a)
          then show ?thesis using step e s' new by auto
        next
          case None
          from Cons.IH [of s'] obtain c' w' new' where
            r: "snd (poll_values env node nid ks s') = s'\<lparr>clock := c', wcalls := w', events := events s' @ new'\<rparr>"
            and new': "list_all (refresh_event (nodes s')) new'" by blast
          have "snd (poll_values env node nid (k # ks) s) =
                  s\<lparr>clock := c', wcalls := w', events := events s @ (new @ new')\<rparr>"
            using step e None r s' by simp
          moreover have "list_all (refresh_event (nodes s)) (new @ new')"
            using new new' s' by simp
          ultimately show ?thesis by blast
        qed
      qed
    qed
  qed
qed

lemma poll_nodes_frame:
  "\<exists>c w new. snd (poll_nodes env items s) = s\<lparr>clock := c, wcalls := w, events := events s @ new\<rparr>
      \<and> list_all (refresh_event (nodes s)) new"
proof (induction items arbitrary: s)
  case Nil
  show ?case using frame_refl [of s "refresh_event (nodes s)"] by simp
next
  case (Cons a items)
  obtain nid node where a: "a = (nid, node)" by (cases a)
  have trivial: "\<exists>c w new. s = s\<lparr>clock := c, wcalls := w, events := events s @ new\<rparr>
      \<and> list_all (refresh_event (nodes s)) new"
    by (rule frame_refl)
  show ?case
  proof (cases "is_sensor node")
    case False
    then show ?thesis using Cons.IH [of s] a by simp
  next
    case True
    show ?thesis
    proof (cases "dict_get (nodes s) nid")
      case (Inl e)
      then show ?thesis using trivial a True by simp
    next
      case n: (Inr n)
      obtain r s' where e: "poll_values env node nid (map fst (values' n)) s = (r, s')"
        by (cases "poll_values env node nid (map fst (values' n)) s")
      from poll_values_frame [of env node nid "map fst (values' n)" s] e
      obtain c w new where s': "s' = s\<lparr>clock := c, wcalls := w, events := events s @ new\<rparr>"
        and new: "list_all (refresh_event (nodes s)) new" by auto
      show ?thesis
      proof (cases r)
        case (Some x)
        then show ?thesis using a True n e s' new by auto
      next
        case None
        from Cons.IH [of s'] obtain c' w' new' where
          r: "snd (poll_nodes env items s') = s'\<lparr>clock := c', wcalls := w', events := events s' @ new'\<rparr>"
          and new': "list_all (refresh_event (nodes s')) new'" by blast
        have "snd (poll_nodes env (a # items) s) =
                s\<lparr>clock := c', wcalls := w', events := events s @ (new @ new')\<rparr>"
          using a True n e None r s' by simp
        moreover have "list_all (refresh_event (nodes s)) (new @ new')"
          using new new' s' by simp
        ultimately show ?thesis by blast
      qed
    qed
  qed
qed

lemma start_polling_frame:
  "\<exists>c w new. snd (start_polling env s) =
       s\<lparr>pending := pending s + 1, clock := c, wcalls := w,
         events := events s @ TimerArm TIME_INTERVAL # new\<rparr>
      \<and> list_all (refresh_event (nodes s)) new"
proof -
  let ?s1 = "timer_start TIME_INTERVAL s"
  from poll_nodes_frame [of env "nodes ?s1" ?s1] obtain c w new where
    r: "snd (poll_nodes env (nodes ?s1) ?s1) = ?s1\<lparr>clock := c, wcalls := w, events := events ?s1 @ new\<rparr>"
    and new: "list_all (refresh_event (nodes ?s1)) new" by blast
  have "snd (start_polling env s) = s\<lparr>pending := pending s + 1, clock := c, wcalls := w,
         events := events s @ TimerArm TIME_INTERVAL # new\<rparr>"
    using r by (simp add: start_polling_def Let_def timer_start_def)
  moreover have "list_all (refresh_event (nodes s)) new" using new by (simp add: timer_start_def)
  ultimately show ?thesis by blast
qed

lemma attempted_refresh:
  "list_all (refresh_event items) new \<Longrightarrow> list_all (list_all (of_whitelisted_value items)) (attempted new)"
  by (induction new rule: attempted.induct) auto

lemma of_whitelisted_label:
  "of_whitelisted_value items p \<Longrightarrow> \<exists>l\<in>labels_to_be_polled. map_of (tags p) ''label'' = Some (JStr l)"
  unfolding of_whitelisted_value_def list_ex_iff by blast

lemma refresh_only:
  "list_all (refresh_event items) new \<Longrightarrow>
     config_writes new = [] \<and> timer_arms new = [] \<and> NetworkStop \<notin> set new"
proof (induction new)
  case Nil
  show ?case by simp
next
  case (Cons e new)
  then show ?case by (cases e) auto
qed

lemma config_writes_append: "config_writes (es @ fs) = config_writes es @ config_writes fs"
  by (induction es rule: config_writes.induct) auto

lemma timer_arms_append: "timer_arms (es @ fs) = timer_arms es @ timer_arms fs"
  by (induction es rule: timer_arms.induct) auto

subsection \<open>The ready callback and stop\<close>

lemma config_present_get:
  "config_present items \<Longrightarrow>
     \<exists>n v. dict_get items 3 = Inr n \<and> dict_get (values' n) CONFIG_NUMBER = Inr v"
  by (auto simp: config_present_def dict_get_def split: option.splits)

lemma config_absent_get:
  "\<not> config_present items \<Longrightarrow>
     dict_get items 3 = Inl KeyError \<or>
     (\<exists>n. dict_get items 3 = Inr n \<and> dict_get (values' n) CONFIG_NUMBER = Inl KeyError)"
  by (auto simp: config_present_def dict_get_def split: option.splits)

lemma stop_present:
  assumes "config_present (nodes s)"
  shows "stop s = (None, s\<lparr>lifecycle := Stopped,
                    events := events s @ [LogInfo ''Stopping network...'',
                       SetData 3 CONFIG_NUMBER 3600, NetworkStop, LogInfo ''Stopped'']\<rparr>)"
proof -
  from config_present_get [OF assms] obtain n v where
    "dict_get (nodes s) 3 = Inr n" "dict_get (values' n) CONFIG_NUMBER = Inr v" by blast
  then show ?thesis
    by (simp add: stop_def Let_def logger_info_def network_stop_def set_data_def)
qed

lemma stop_absent:
  assumes "\<not> config_present (nodes s)"
  shows "stop s = (Some KeyError, s\<lparr>events := events s @ [LogInfo ''Stopping network...'']\<rparr>)"
  using config_absent_get [OF assms]
  by (auto simp: stop_def Let_def logger_info_def)

lemma ready_absent:
  assumes "\<not> config_present (nodes s)"
  shows "signal_network_ready env (network_id s) s
           = (Some KeyError, s\<lparr>events := events s @ ready_log\<rparr>)"
  using config_absent_get [OF assms]
  by (auto simp: signal_network_ready_def Let_def logger_info_def ozw_debug_def ready_log_def)

lemma ready_present:
  assumes "config_present (nodes s)"
  shows "\<exists>c w new. snd (signal_network_ready env (network_id s) s) =
           s\<lparr>pending := pending s + 1, clock := c, wcalls := w,
             events := events s @ ready_log @ SetData 3 CONFIG_NUMBER 15 # TimerArm TIME_INTERVAL # new\<rparr>
           \<and> list_all (refresh_event (nodes s)) new"
proof -
  from config_present_get [OF assms] obtain n v where
    g: "dict_get (nodes s) 3 = Inr n" "dict_get (values' n) CONFIG_NUMBER = Inr v" by blast
  let ?s1 = "s\<lparr>events := events s @ ready_log @ [SetData 3 CONFIG_NUMBER 15]\<rparr>"
  have r: "signal_network_ready env (network_id s) s = start_polling env ?s1"
    using g by (simp add: signal_network_ready_def Let_def logger_info_def ozw_debug_def
        ready_log_def set_data_def)
  from start_polling_frame [of env ?s1] obtain c w new where
    f: "snd (start_polling env ?s1) =
       ?s1\<lparr>pending := pending ?s1 + 1, clock := c, wcalls := w,
         events := events ?s1 @ TimerArm TIME_INTERVAL # new\<rparr>"
    and new: "list_all (refresh_event (nodes ?s1)) new" by blast
  have "snd (signal_network_ready env (network_id s) s) =
           s\<lparr>pending := pending s + 1, clock := c, wcalls := w,
             events := events s @ ready_log @ SetData 3 CONFIG_NUMBER 15 # TimerArm TIME_INTERVAL # new\<rparr>"
    using r f by simp
  moreover have "list_all (refresh_event (nodes s)) new" using new by simp
  ultimately show ?thesis by blast
qed

lemma config_writes_ready_log [simp]: "config_writes ready_log = []"
  by (simp add: ready_log_def)

lemma timer_arms_ready_log [simp]: "timer_arms ready_log = []"
  by (simp add: ready_log_def)

lemma pending_step: "pending s \<le> pending (step env i s)"
proof (cases i)
  case CallStart
  then show ?thesis by (simp add: step_def start_def network_start_def logger_info_def)
next
  case (SignalNetworkReady network)
  show ?thesis
  proof (cases "network = network_id s \<and> config_present (nodes s)")
    case True
    from ready_present [of s env] True obtain c w new where
      "snd (signal_network_ready env (network_id s) s) =
           s\<lparr>pending := pending s + 1, clock := c, wcalls := w,
             events := events s @ ready_log @ SetData 3 CONFIG_NUMBER 15 # TimerArm TIME_INTERVAL # new\<rparr>"
      by blast
    then show ?thesis using True SignalNetworkReady by (simp add: step_def)
  next
    case False
    then show ?thesis
      using SignalNetworkReady ready_absent [of s env]
      by (cases "network = network_id s") (auto simp: step_def signal_network_ready_def)
  qed
next
  case CallStop
  then show ?thesis
    by (cases "config_present (nodes s)") (simp_all add: step_def stop_present stop_absent)
next
  case TimerFires
  from start_polling_frame [of env "s\<lparr>pending := pending s - 1\<rparr>"] obtain c w new where
    "snd (start_polling env (s\<lparr>pending := pending s - 1\<rparr>)) =
       s\<lparr>pending := pending s - 1\<rparr>\<lparr>pending := pending (s\<lparr>pending := pending s - 1\<rparr>) + 1, clock := c, wcalls := w,
         events := events (s\<lparr>pending := pending s - 1\<rparr>) @ TimerArm TIME_INTERVAL # new\<rparr>" by blast
  then show ?thesis using TimerFires by (simp add: step_def)
next
  case (NetworkChange items)
  then show ?thesis by (simp add: step_def)
qed

lemma pending_run: "pending s \<le> pending (run env inputs s)"
proof (induction inputs arbitrary: s)
  case Nil
  show ?case by simp
next
  case (Cons i inputs)
  have "pending s \<le> pending (step env i s)" by (rule pending_step)
  also have "\<dots> \<le> pending (run env inputs (step env i s))" by (rule Cons.IH)
  finally show ?case by simp
qed

subsection \<open>The small network\<close>

lemma home_polled: "polled (nodes home) = [(multisensor, temperature), (multisensor, humidity)]"
  by (simp add: polled_def whitelisted_def scenario_defs model_defs)

lemma home_wf: "wf_network home"
  by (simp add: wf_network_def scenario_defs model_defs)

section \<open>The claims\<close>

subsection \<open>C1: one record per polled pair\<close>

text \<open>
  Claim C1, as the code has it: in a poll cycle in which no \<^verbatim>\<open>float()\<close> conversion of a
  polled datum and no sink write raises, every pair of a node classified as a sensor and
  one of its values with a whitelisted label gets exactly one write call, carrying exactly
  one point. The \<open>i\<close>-th write is for the \<open>i\<close>-th such pair: its measurement is
  \<^verbatim>\<open>value_refresh\<close>, its tags are the id on the network, home id, node id, value id,
  manufacturer id, product id and label of the pair, its time is the clock's \<open>i\<close>-th
  reading of the cycle, and its fields hold the converted datum and the units (and the two
  constants \<^verbatim>\<open>type\<close> and \<^verbatim>\<open>type_val\<close>). The cycle returns normally and has called
  \<^verbatim>\<open>write_points\<close> once per pair.
\<close>

theorem poll_cycle_one_record_per_pair:
  assumes "wf_network s"
      and "list_all (\<lambda>(node, val). \<not> isl (py_float env (data val))) (polled (nodes s))"
      and "\<forall>k<length (polled (nodes s)). write_ok env (wcalls s + k)"
  shows "fst (start_polling env s) = None \<and>
         wcalls (snd (start_polling env s)) = wcalls s + length (polled (nodes s)) \<and>
         length (written (drop (length (events s)) (events (snd (start_polling env s)))))
           = length (polled (nodes s)) \<and>
         (\<forall>i<length (polled (nodes s)).
            written (drop (length (events s)) (events (snd (start_polling env s)))) ! i =
              (case polled (nodes s) ! i of (node, val) \<Rightarrow>
                 [\<lparr>measurement = ''value_refresh'',
                   tags = [(''id_on_network'', JStr (id_on_network val)),
                           (''home_id'', JInt (home_id node)),
                           (''node_id'', JInt (node_id node)),
                           (''value_id'', JInt (value_id val)),
                           (''manufacturer_id'', JStr (manufacturer_id node)),
                           (''product_id'', JStr (product_id node)),
                           (''label'', JStr (label val))],
                   time = asctime env (clock s + i),
                   fields' = [(''data'', JFloat (projr (py_float env (data val)))),
                              (''units'', JStr (units val)),
                              (''type'', JStr ''none''),
                              (''type_val'', JInt 0)]\<rparr>]))"
proof -
  let ?ps = "polled (nodes s)"
  note r = start_polling_ok [OF assms]
  have new: "drop (length (events s)) (events (snd (start_polling env s)))
               = TimerArm TIME_INTERVAL # cycle_trace env (clock s) ?ps"
    by (simp add: r)
  have nth: "written (cycle_trace env (clock s) ?ps) ! i =
               (case ?ps ! i of (node, val) \<Rightarrow>
                  [refresh_point env (asctime env (clock s + i)) node val])"
    if "i < length ?ps" for i
    using that by (simp add: nth_written_cycle_trace split_def)
  show ?thesis
    unfolding new using nth
    by (simp add: r length_written_cycle_trace refresh_point_def)
qed

text \<open>
  On the small network the cycle writes two points, the second for the humidity.
\<close>

theorem poll_cycle_one_record_per_pair_witness:
  "wf_network home \<and> length (polled (nodes home)) = 2 \<and>
   fst (start_polling sink_up home) = None \<and>
   wcalls (snd (start_polling sink_up home)) = 2 \<and>
   length (written (events (snd (start_polling sink_up home)))) = 2 \<and>
   map_of (tags (hd (written (events (snd (start_polling sink_up home))) ! 1))) ''label''
     = Some (JStr ''Relative Humidity'')"
proof -
  have c: "list_all (\<lambda>(node, val). \<not> isl (py_float sink_up (data val))) (polled (nodes home))"
    by (simp add: home_polled) (simp add: sink_up_def float_of_float_def)
  have w: "\<forall>k<length (polled (nodes home)). write_ok sink_up (wcalls home + k)"
    by (simp add: sink_up_def)
  have e: "events home = []" "wcalls home = 0" by (simp_all add: home_def fresh_def)
  show ?thesis
    using poll_cycle_one_record_per_pair [OF home_wf c w] home_wf
    by (simp add: home_polled e humidity_def)
qed

text \<open>
  Without the proviso the property fails: the multisensor is a sensor and its temperature
  is whitelisted, but with the sink down the cycle gets no point written.
\<close>

theorem poll_cycle_one_record_per_pair_counterexample:
  "wf_network home \<and> is_sensor multisensor \<and> label temperature \<in> labels_to_be_polled \<and>
   (3, multisensor) \<in> set (nodes home) \<and> (1, temperature) \<in> set (values' multisensor) \<and>
   written (events (snd (start_polling sink_down home))) = []"
  by (simp add: wf_network_def scenario_defs model_defs)

subsection \<open>C2: only whitelisted values are written\<close>

text \<open>
  Claim C2: whatever the state and the environment, every point that a poll cycle hands
  to \<^verbatim>\<open>write_points\<close> (whether the call returns or raises) is built from a value of the
  network whose label is in the whitelist, and carries that label as its
  \<^verbatim>\<open>label\<close> tag. So no point is ever emitted for a value whose label is outside the
  whitelist, however its node is classified.
\<close>

theorem only_whitelisted_values_emitted:
  "\<forall>ps\<in>set (attempted (drop (length (events s)) (events (snd (start_polling env s))))).
     \<forall>p\<in>set ps. of_whitelisted_value (nodes s) p \<and>
       (\<exists>l\<in>labels_to_be_polled. map_of (tags p) ''label'' = Some (JStr l))"
proof -
  from start_polling_frame [of env s] obtain c w new where
    r: "snd (start_polling env s) =
       s\<lparr>pending := pending s + 1, clock := c, wcalls := w,
         events := events s @ TimerArm TIME_INTERVAL # new\<rparr>"
    and new: "list_all (refresh_event (nodes s)) new" by blast
  have "drop (length (events s)) (events (snd (start_polling env s))) = TimerArm TIME_INTERVAL # new"
    by (simp add: r)
  then have "list_all (list_all (of_whitelisted_value (nodes s)))
               (attempted (drop (length (events s)) (events (snd (start_polling env s)))))"
    using attempted_refresh [OF new] by simp
  then show ?thesis
    using of_whitelisted_label by (fastforce simp: list_all_iff)
qed

text \<open>
  On the small network the poll interval setting and the power reading have labels outside
  the whitelist, and the points written are those of the temperature and the humidity.
\<close>

theorem only_whitelisted_values_emitted_witness:
  "label group1_interval \<notin> labels_to_be_polled \<and> label power \<notin> labels_to_be_polled \<and>
   map (map (\<lambda>p. map_of (tags p) ''label''))
       (attempted (events (snd (start_polling sink_up home))))
     = [[Some (JStr ''Temperature'')], [Some (JStr ''Relative Humidity'')]]"
proof -
  have e: "events home = []" by (simp add: home_def fresh_def)
  have "attempted (events (snd (start_polling sink_up home))) \<noteq> []"
    by (simp add: scenario_defs model_defs)
  then show ?thesis
    using only_whitelisted_values_emitted [of home sink_up]
    by (simp add: scenario_defs model_defs)
qed

subsection \<open>C5: a device without whitelisted values\<close>

text \<open>
  Claim C5, as the code has it: the round of the outer loop for a node none of whose
  values has a whitelisted label returns normally and leaves the state as it was, so it
  writes no point and logs nothing. Whether the node is classified as a sensor does not
  depend on its labels: \<open>is_sensor\<close> holds exactly when the library object is a
  \<^verbatim>\<open>ZWaveNodeSensor\<close> and \<^verbatim>\<open>get_sensors()\<close> is not empty.
\<close>

theorem no_whitelisted_value_no_record:
  assumes "py_dict (nodes s)" and "(nid, node) \<in> set (nodes s)" and "whitelisted node = []"
  shows "poll_nodes env [(nid, node)] s = (None, s) \<and>
         (is_sensor node \<longleftrightarrow> isinstance_ZWaveNodeSensor node \<and> get_sensors node \<noteq> [])"
proof -
  have g: "dict_get (nodes s) nid = Inr node" using dict_get_mem [OF assms(1,2)] .
  have nw: "\<forall>(k, v)\<in>set (values' node). label v \<notin> labels_to_be_polled"
    using assms(3) by (auto simp: whitelisted_def filter_empty_conv)
  have "filter (\<lambda>v. label v \<in> labels_to_be_polled)
          (map (\<lambda>k. the (map_of (values' node) k)) (map fst (values' node))) = []"
  proof -
    have "\<And>k. k \<in> fst ` set (values' node) \<Longrightarrow> label (the (map_of (values' node) k)) \<notin> labels_to_be_polled"
    proof -
      fix k assume "k \<in> fst ` set (values' node)"
      then obtain v where "map_of (values' node) k = Some v"
        by (cases "map_of (values' node) k") (auto simp: map_of_eq_None_iff)
      then show "label (the (map_of (values' node) k)) \<notin> labels_to_be_polled"
        using nw by (auto dest: map_of_SomeD)
    qed
    then show ?thesis by (auto simp: filter_empty_conv)
  qed
  then have "poll_values env node nid (map fst (values' node)) s = (None, s)"
    using poll_values_emit_all [OF g, of "map fst (values' node)" env node] by simp
  then show ?thesis using g by (simp add: is_sensor_def)
qed

text \<open>
  The power meter of the small network is such a node, and it is classified as a sensor.
\<close>

theorem no_whitelisted_value_no_record_witness:
  "py_dict (nodes home) \<and> (5, power_meter) \<in> set (nodes home) \<and> whitelisted power_meter = [] \<and>
   poll_nodes sink_up [(5, power_meter)] home = (None, home) \<and> is_sensor power_meter"
proof -
  have a: "py_dict (nodes home)" by (simp add: scenario_defs model_defs)
  have b: "(5, power_meter) \<in> set (nodes home)" by (simp add: home_def)
  have c: "whitelisted power_meter = []"
    by (simp add: whitelisted_def power_meter_def power_def labels_to_be_polled_def)
  have d: "isinstance_ZWaveNodeSensor power_meter \<and> get_sensors power_meter \<noteq> []"
    by (simp add: power_meter_def)
  show ?thesis
    using no_whitelisted_value_no_record [OF a b c, of sink_up] a b c d by blast
qed

text \<open>
  So the claim's equivalence fails: the power meter is classified as a sensor and exposes
  no value with a whitelisted label.
\<close>

theorem sensor_without_whitelisted_value:
  "is_sensor power_meter \<and>
   \<not> (\<exists>v \<in> snd ` set (values' power_meter). label v \<in> labels_to_be_polled)"
  by (simp add: power_meter_def power_def is_sensor_def labels_to_be_polled_def)

subsection \<open>C6: a sink write that raises\<close>

text \<open>
  Claim C6, as the code has it: when the write for the polled pair number \<open>j\<close> is made
  and is the first of the cycle to raise, the exception leaves \<^verbatim>\<open>start_polling\<close>. The
  \<open>j\<close> writes before it were made, no write call follows it in this cycle, and nothing is
  logged after it: the raising call is the last event of the trace. The timer for the next
  cycle was armed once, as the first event of the cycle and so before any write, and stays
  armed. Nothing is asked of the pairs after the raising write: their data need not even
  be convertible.
\<close>

theorem sink_failure_aborts_cycle:
  assumes "wf_network s"
      and "list_all (\<lambda>(node, val). \<not> isl (py_float env (data val)))
             (take (Suc j) (polled (nodes s)))"
      and "j < length (polled (nodes s))"
      and "\<forall>k<j. write_ok env (wcalls s + k)"
      and "\<not> write_ok env (wcalls s + j)"
  shows "fst (start_polling env s) = Some SinkError \<and>
         pending (snd (start_polling env s)) = pending s + 1 \<and>
         wcalls (snd (start_polling env s)) = wcalls s + j + 1 \<and>
         hd (drop (length (events s)) (events (snd (start_polling env s)))) = TimerArm TIME_INTERVAL \<and>
         timer_arms (drop (length (events s)) (events (snd (start_polling env s)))) = [TIME_INTERVAL] \<and>
         length (written (drop (length (events s)) (events (snd (start_polling env s))))) = j \<and>
         length (attempted (drop (length (events s)) (events (snd (start_polling env s))))) = j + 1 \<and>
         (\<exists>p. last (events (snd (start_polling env s))) = WriteRaised [p])"
proof -
  let ?ps = "polled (nodes s)"
  let ?s1 = "timer_start TIME_INTERVAL s"
  have w: "\<forall>k<j. write_ok env (wcalls ?s1 + k)" and nw: "\<not> write_ok env (wcalls ?s1 + j)"
    using assms(4,5) by (simp_all add: timer_start_def)
  have r: "start_polling env s =
      (Some SinkError, ?s1\<lparr>clock := clock ?s1 + j + 1, wcalls := wcalls ?s1 + j + 1,
          events := events ?s1 @ cycle_trace env (clock ?s1) (take j ?ps)
             @ [LogInfo ''Received value refresh %s: %s'',
                WriteRaised [refresh_point env (asctime env (clock ?s1 + j))
                               (fst (?ps ! j)) (snd (?ps ! j))]]\<rparr>)"
    using start_polling_emit_all [OF assms(1), of env] emit_all_raises [OF assms(2,3) w nw] by simp
  have new: "drop (length (events s)) (events (snd (start_polling env s)))
       = TimerArm TIME_INTERVAL # cycle_trace env (clock s) (take j ?ps)
             @ [LogInfo ''Received value refresh %s: %s'',
                WriteRaised [refresh_point env (asctime env (clock s + j))
                               (fst (?ps ! j)) (snd (?ps ! j))]]"
    by (simp add: r timer_start_def)
  have ta: "\<And>c qs. timer_arms (cycle_trace env c qs @ es) = timer_arms es" for es
  proof -
    fix c qs show "timer_arms (cycle_trace env c qs @ es) = timer_arms es"
      by (induction env c qs rule: cycle_trace.induct) auto
  qed
  have wr: "\<And>c qs. written (cycle_trace env c qs @ es) = written (cycle_trace env c qs) @ written es" for es
    by (simp add: written_append)
  have at: "\<And>c qs. length (attempted (cycle_trace env c qs @ es)) = length qs + length (attempted es)" for es
  proof -
    fix c qs show "length (attempted (cycle_trace env c qs @ es)) = length qs + length (attempted es)"
      by (induction env c qs rule: cycle_trace.induct) auto
  qed
  show ?thesis
    unfolding new using assms(3)
    by (simp add: r timer_start_def ta wr at length_written_cycle_trace)
qed

text \<open>
  On the small network with a sink that accepts one write, the second write raises: one
  point is written and a timer is pending.
\<close>

theorem sink_failure_aborts_cycle_witness:
  "wf_network home \<and> length (polled (nodes home)) = 2 \<and>
   write_ok (sink_up_for 1) 0 \<and> \<not> write_ok (sink_up_for 1) 1 \<and>
   fst (start_polling (sink_up_for 1) home) = Some SinkError \<and>
   pending (snd (start_polling (sink_up_for 1) home)) = 1 \<and>
   hd (events (snd (start_polling (sink_up_for 1) home))) = TimerArm 15 \<and>
   length (written (events (snd (start_polling (sink_up_for 1) home)))) = 1"
proof -
  have c: "list_all (\<lambda>(node, val). \<not> isl (py_float (sink_up_for 1) (data val)))
             (take (Suc 1) (polled (nodes home)))"
    by (simp add: home_polled) (simp add: sink_up_for_def sink_up_def float_of_float_def)
  have j: "1 < length (polled (nodes home))" by (simp add: home_polled)
  have w: "\<forall>k<1. write_ok (sink_up_for 1) (wcalls home + k)"
    by (simp add: sink_up_for_def sink_up_def home_def fresh_def)
  have nw: "\<not> write_ok (sink_up_for 1) (wcalls home + 1)"
    by (simp add: sink_up_for_def sink_up_def home_def fresh_def)
  have e: "events home = []" "wcalls home = 0" "pending home = 0" by (simp_all add: home_def fresh_def)
  show ?thesis
    using sink_failure_aborts_cycle [OF home_wf c j w nw] home_wf w nw
    by (simp add: home_polled e TIME_INTERVAL_def)
qed

text \<open>
  The claim that the rest of the cycle's writes still happen fails: with the sink down,
  the small network has two pairs to poll, the cycle raises at the first write, and the
  trace ends there, with no write attempted for the second pair and no log of the failure.
\<close>

theorem sink_failure_skips_remaining_writes:
  "length (polled (nodes home)) = 2 \<and>
   start_polling sink_down home =
     (Some SinkError,
      home\<lparr>pending := 1, clock := 1, wcalls := 1,
           events := [TimerArm 15, LogInfo ''Received value refresh %s: %s'',
                      WriteRaised [refresh_point sink_down (asctime sink_down 0) multisensor temperature]]\<rparr>)"
  by (simp add: home_polled) (simp add: scenario_defs model_defs refresh_point_def)

subsection \<open>C8: the temperature scenario\<close>

text \<open>
  Claim C8, as the code has it: for a sensor node with id 3, manufacturer id
  \<^verbatim>\<open>0x0086\<close> and product id \<^verbatim>\<open>0x0059\<close> whose one value is labelled
  \<^verbatim>\<open>Temperature\<close> with datum 21.5 and units \<^verbatim>\<open>C\<close>, a cycle with a working sink writes
  exactly one point. Its measurement is \<^verbatim>\<open>value_refresh\<close>, its tags include the label
  \<^verbatim>\<open>Temperature\<close>, and its fields are the datum 21.5, the units \<^verbatim>\<open>C\<close>, the type
  \<^verbatim>\<open>none\<close> and the type value 0. The home id, the value id, the id on the network and
  the rest of the state are arbitrary.
\<close>

theorem temperature_scenario:
  "written (drop (length (events s))
      (events (snd (start_polling
         \<lparr>py_float = float_of_float, asctime = now, write_ok = (\<lambda>k. True)\<rparr>
         (s\<lparr>nodes := [(3, sensor3 h ion vid)]\<rparr>)))))
    = [[\<lparr>measurement = ''value_refresh'',
         tags = [(''id_on_network'', JStr ion),
                 (''home_id'', JInt h),
                 (''node_id'', JInt 3),
                 (''value_id'', JInt vid),
                 (''manufacturer_id'', JStr ''0x0086''),
                 (''product_id'', JStr ''0x0059''),
                 (''label'', JStr ''Temperature'')],
         time = now (clock s),
         fields' = [(''data'', JFloat 21.5),
                    (''units'', JStr ''C''),
                    (''type'', JStr ''none''),
                    (''type_val'', JInt 0)]\<rparr>]]"
proof -
  let ?env = "\<lparr>py_float = float_of_float, asctime = now, write_ok = (\<lambda>k. True)\<rparr>"
  let ?s = "s\<lparr>nodes := [(3, sensor3 h ion vid)]\<rparr>"
  have p: "polled [(3, sensor3 h ion vid)] = [(sensor3 h ion vid, temperature_value ion vid)]"
    by (simp add: polled_def whitelisted_def is_sensor_def labels_to_be_polled_def sensor3_def
        temperature_value_def)
  have wf: "wf_network ?s"
    by (simp add: wf_network_def py_dict_def sensor3_def)
  have c: "list_all (\<lambda>(node, val). \<not> isl (py_float ?env (data val))) (polled (nodes ?s))"
    by (simp add: p float_of_float_def)
  have w: "\<forall>k<length (polled (nodes ?s)). write_ok ?env (wcalls ?s + k)" by simp
  have "written (drop (length (events s)) (events (snd (start_polling ?env ?s))))
          = [ [refresh_point ?env (now (clock s)) (sensor3 h ion vid) (temperature_value ion vid)] ]"
    by (simp add: start_polling_ok [OF wf c w] p)
  then show ?thesis
    by (simp add: refresh_point_def sensor3_def temperature_value_def float_of_float_def)
qed

text \<open>
  The fields are not just the datum and the units: no point written in the scenario has
  the two-entry dictionary as its fields.
\<close>

theorem temperature_scenario_fields:
  "\<not> (\<exists>r. written (events (snd (start_polling sink_up (fresh\<lparr>nodes := [(3, sensor3 4027435774 ''f00dcafe.3.49.1.1'' 1)]\<rparr>)))) = [[r]]
         \<and> measurement r = ''value_refresh''
         \<and> map_of (tags r) ''label'' = Some (JStr ''Temperature'')
         \<and> map_of (fields' r) = [''data'' \<mapsto> JFloat 21.5, ''units'' \<mapsto> JStr ''C''])"
proof
  assume "\<exists>r. written (events (snd (start_polling sink_up (fresh\<lparr>nodes := [(3, sensor3 4027435774 ''f00dcafe.3.49.1.1'' 1)]\<rparr>)))) = [[r]]
         \<and> measurement r = ''value_refresh''
         \<and> map_of (tags r) ''label'' = Some (JStr ''Temperature'')
         \<and> map_of (fields' r) = [''data'' \<mapsto> JFloat 21.5, ''units'' \<mapsto> JStr ''C'']"
  then obtain r where
    w: "written (events (snd (start_polling sink_up (fresh\<lparr>nodes := [(3, sensor3 4027435774 ''f00dcafe.3.49.1.1'' 1)]\<rparr>)))) = [[r]]"
    and f: "map_of (fields' r) = [''data'' \<mapsto> JFloat 21.5, ''units'' \<mapsto> JStr ''C'']" by blast
  have "map_of (fields' r) ''type'' = Some (JStr ''none'')"
    using w by (simp add: scenario_defs model_defs) auto
  moreover have "[''data'' \<mapsto> JFloat (21.5::real), ''units'' \<mapsto> JStr ''C''] ''type'' = None" by simp
  ultimately show False using f by simp
qed

subsection \<open>C9: cycles over an unchanged snapshot\<close>

text \<open>
  Claim C9, as the code has it: when no sink write raises, consecutive cycles leave the
  snapshot as it is, and the points written by the cycle after \<open>i\<close> cycles and by the
  cycle after \<open>j\<close> cycles are the same once their timestamps are blanked: one per polled
  pair, up to the first pair (if any) whose datum \<^verbatim>\<open>float()\<close> rejects, which is the
  same pair in every cycle.
\<close>

theorem cycles_structurally_identical:
  assumes "wf_network s"
      and "\<forall>k. write_ok env k"
  shows "nodes (cycles env i s) = nodes s \<and>
         length (cycle_points env (cycles env i s))
           = length (takeWhile (\<lambda>(node, val). \<not> isl (py_float env (data val)))
                       (polled (nodes s))) \<and>
         map erase_time (cycle_points env (cycles env i s))
           = map erase_time (cycle_points env (cycles env j s))"
proof -
  let ?ok = "takeWhile (\<lambda>(node, val). \<not> isl (py_float env (data val))) (polled (nodes s))"
  have n: "nodes (cycles env k s) = nodes s" for k using nodes_cycles [OF assms(1)] .
  have e: "map erase_time (cycle_points env (cycles env k s))
             = map (\<lambda>(n, v). refresh_point env [] n v) ?ok" for k
  proof -
    have "wf_network (cycles env k s)" using assms(1) n [of k] by (simp add: wf_network_def)
    from cycle_points_accepted [OF this assms(2)] show ?thesis using n [of k] by simp
  qed
  have "length (map erase_time (cycle_points env (cycles env i s))) = length ?ok"
    unfolding e by simp
  then have "length (cycle_points env (cycles env i s)) = length ?ok"
    by (simp only: length_map)
  then show ?thesis using n [of i] e [of i] e [of j] by simp
qed

text \<open>
  On the small network with a working sink, the fourth and the second cycle agree.
\<close>

theorem cycles_structurally_identical_witness:
  "wf_network home \<and> write_ok sink_up 7 \<and>
   nodes (cycles sink_up 3 home) = nodes home \<and>
   length (cycle_points sink_up (cycles sink_up 3 home)) = 2 \<and>
   map erase_time (cycle_points sink_up (cycles sink_up 3 home))
     = map erase_time (cycle_points sink_up (cycles sink_up 1 home))"
proof -
  have w: "\<forall>k. write_ok sink_up k" by (simp add: sink_up_def)
  have t: "takeWhile (\<lambda>(node, val). \<not> isl (py_float sink_up (data val))) (polled (nodes home))
             = polled (nodes home)"
    by (simp add: home_polled) (simp add: sink_up_def float_of_float_def)
  note th = cycles_structurally_identical [OF home_wf w, of 3 1, unfolded t]
  show ?thesis
    using th home_wf w by (simp add: home_polled)
qed

text \<open>
  Without the proviso the property fails: with a sink that accepts two writes, the first
  cycle over the small network writes two points and the second, over the same snapshot,
  none.
\<close>

theorem second_cycle_differs_when_sink_fails:
  "nodes (cycles (sink_up_for 2) 1 home) = nodes (cycles (sink_up_for 2) 0 home) \<and>
   length (cycle_points (sink_up_for 2) (cycles (sink_up_for 2) 0 home)) = 2 \<and>
   length (cycle_points (sink_up_for 2) (cycles (sink_up_for 2) 1 home)) = 0 \<and>
   map erase_time (cycle_points (sink_up_for 2) (cycles (sink_up_for 2) 0 home))
     \<noteq> map erase_time (cycle_points (sink_up_for 2) (cycles (sink_up_for 2) 1 home))"
proof -
  have a: "cycle_points (sink_up_for 2) (cycles (sink_up_for 2) 1 home) = []"
    by (simp add: cycle_points_def) (simp add: scenario_defs model_defs)
  have b: "length (cycle_points (sink_up_for 2) (cycles (sink_up_for 2) 0 home)) = 2"
    by (simp add: cycle_points_def) (simp add: scenario_defs model_defs)
  have c: "nodes (cycles (sink_up_for 2) 1 home) = nodes home"
    by (simp add: scenario_defs model_defs)
  have "cycle_points (sink_up_for 2) (cycles (sink_up_for 2) 0 home) \<noteq> []"
    using b by auto
  then show ?thesis using a b c by simp
qed

subsection \<open>C3: stop before start\<close>

text \<open>
  Claim C3, as the code has it: on a manager whose network has not been started,
  \<^verbatim>\<open>stop()\<close> returns normally exactly when node 3 holds a value under the key
  \<^verbatim>\<open>CONFIG_NUMBER\<close>, and raises \<^verbatim>\<open>KeyError\<close> otherwise; either way it makes no
  poll-rate write of 15.
\<close>

theorem stop_before_start:
  assumes "lifecycle s = NotStarted"
  shows "fst (stop s) = (if config_present (nodes s) then None else Some KeyError) \<and>
         (\<forall>n k. (n, k, 15) \<notin> set (config_writes (drop (length (events s)) (events (snd (stop s))))))"
proof (cases "config_present (nodes s)")
  case True
  then show ?thesis by (simp add: stop_present)
next
  case False
  then show ?thesis by (simp add: stop_absent)
qed

text \<open>
  With the two nodes known and the network not started, \<^verbatim>\<open>stop()\<close> returns and its one
  poll-rate write is that of 3600.
\<close>

theorem stop_before_start_witness:
  "lifecycle home = NotStarted \<and> config_present (nodes home) \<and> fst (stop home) = None \<and>
   config_writes (events (snd (stop home))) = [(3, CONFIG_NUMBER, 3600)]"
proof -
  have l: "lifecycle home = NotStarted" by (simp add: home_def fresh_def)
  have c: "config_present (nodes home)"
    by (simp add: config_present_def scenario_defs CONFIG_NUMBER_def)
  have "config_writes (events (snd (stop home))) = [(3, CONFIG_NUMBER, 3600)]"
    by (simp add: stop_present [OF c]) (simp add: home_def fresh_def)
  then show ?thesis using stop_before_start [OF l] l c by simp
qed

text \<open>
  The claim that \<^verbatim>\<open>stop()\<close> before \<^verbatim>\<open>start()\<close> never raises fails on the manager as
  \<^verbatim>\<open>__init__\<close> leaves it: no node is known yet, and the subscript \<^verbatim>\<open>nodes[3]\<close> raises
  after the first log line.
\<close>

theorem stop_on_fresh_network_raises:
  "lifecycle fresh = NotStarted \<and> nodes fresh = [] \<and> events fresh = [] \<and>
   stop fresh = (Some KeyError, fresh\<lparr>events := [LogInfo ''Stopping network...'']\<rparr>)"
  by (simp add: fresh_def stop_def dict_get_def logger_info_def Let_def)

subsection \<open>C7: a notification for another network\<close>

text \<open>
  Claim C7: a ``network ready'' notification that carries another network object than the
  manager's own returns at once and leaves the state as it was: no log, no poll-rate
  write, no timer. A notification that arms a timer carries the manager's own network;
  and one that carries it does arm the timer when the poll-rate value exists.
\<close>

theorem foreign_ready_is_noop:
  "(network \<noteq> network_id s \<longrightarrow> signal_network_ready env network s = (None, s)) \<and>
   (timer_arms (drop (length (events s)) (events (snd (signal_network_ready env network s)))) \<noteq> []
      \<longrightarrow> network = network_id s) \<and>
   (network = network_id s \<and> config_present (nodes s) \<longrightarrow>
      timer_arms (drop (length (events s)) (events (snd (signal_network_ready env network s))))
        = [TIME_INTERVAL])"
proof -
  have a: "network \<noteq> network_id s \<Longrightarrow> signal_network_ready env network s = (None, s)"
    by (simp add: signal_network_ready_def)
  have c: "timer_arms (drop (length (events s)) (events (snd (signal_network_ready env network s))))
        = [TIME_INTERVAL]" if "network = network_id s" "config_present (nodes s)"
  proof -
    from ready_present [OF that(2), of env] obtain c w new where
      r: "snd (signal_network_ready env (network_id s) s) =
           s\<lparr>pending := pending s + 1, clock := c, wcalls := w,
             events := events s @ ready_log @ SetData 3 CONFIG_NUMBER 15 # TimerArm TIME_INTERVAL # new\<rparr>"
      and new: "list_all (refresh_event (nodes s)) new" by blast
    show ?thesis using that(1) refresh_only [OF new] by (simp add: r timer_arms_append)
  qed
  have b: "network = network_id s"
    if "timer_arms (drop (length (events s)) (events (snd (signal_network_ready env network s)))) \<noteq> []"
  proof (rule ccontr)
    assume "network \<noteq> network_id s"
    then have "signal_network_ready env network s = (None, s)" by (rule a)
    then show False using that by simp
  qed
  show ?thesis using a b c by blast
qed

text \<open>
  On the small network, whose network object has identity 1, the notification for
  object 2 changes nothing and the one for object 1 arms the timer.
\<close>

theorem foreign_ready_is_noop_witness:
  "network_id home = 1 \<and> signal_network_ready sink_up 2 home = (None, home) \<and>
   config_present (nodes home) \<and>
   timer_arms (events (snd (signal_network_ready sink_up 1 home))) = [15]"
proof -
  have n: "network_id home = 1" "events home = []" by (simp_all add: home_def fresh_def)
  have c: "config_present (nodes home)"
    by (simp add: config_present_def scenario_defs CONFIG_NUMBER_def)
  show ?thesis
    using foreign_ready_is_noop [of 2 home sink_up] foreign_ready_is_noop [of 1 home sink_up] n c
    by (simp add: TIME_INTERVAL_def)
qed

subsection \<open>C10: the poll-rate writes\<close>

text \<open>
  Claim C10: when \<^verbatim>\<open>nodes[3].values[CONFIG_NUMBER]\<close> exists, the ready callback (for the
  manager's own network) makes exactly one assignment to a value's data, that of 15 to
  node 3 under \<^verbatim>\<open>CONFIG_NUMBER\<close>, and \<^verbatim>\<open>stop()\<close> exactly one, that of 3600 to the same
  place. When node 3 or that key is missing, the ready callback raises \<^verbatim>\<open>KeyError\<close>
  before polling starts (no timer is armed, nothing is handed to the sink), and
  \<^verbatim>\<open>stop()\<close> raises \<^verbatim>\<open>KeyError\<close> before the network is stopped.
\<close>

theorem poll_rate_writes_target_node_3:
  "(config_present (nodes s) \<longrightarrow>
      config_writes (drop (length (events s))
         (events (snd (signal_network_ready env (network_id s) s)))) = [(3, CONFIG_NUMBER, 15)] \<and>
      config_writes (drop (length (events s)) (events (snd (stop s)))) = [(3, CONFIG_NUMBER, 3600)]) \<and>
   (\<not> config_present (nodes s) \<longrightarrow>
      fst (signal_network_ready env (network_id s) s) = Some KeyError \<and>
      pending (snd (signal_network_ready env (network_id s) s)) = pending s \<and>
      timer_arms (drop (length (events s))
         (events (snd (signal_network_ready env (network_id s) s)))) = [] \<and>
      attempted (drop (length (events s))
         (events (snd (signal_network_ready env (network_id s) s)))) = [] \<and>
      fst (stop s) = Some KeyError \<and>
      lifecycle (snd (stop s)) = lifecycle s \<and>
      NetworkStop \<notin> set (drop (length (events s)) (events (snd (stop s)))))"
proof (cases "config_present (nodes s)")
  case True
  from ready_present [OF True, of env] obtain c w new where
    r: "snd (signal_network_ready env (network_id s) s) =
           s\<lparr>pending := pending s + 1, clock := c, wcalls := w,
             events := events s @ ready_log @ SetData 3 CONFIG_NUMBER 15 # TimerArm TIME_INTERVAL # new\<rparr>"
    and new: "list_all (refresh_event (nodes s)) new" by blast
  have "config_writes (drop (length (events s))
         (events (snd (signal_network_ready env (network_id s) s)))) = [(3, CONFIG_NUMBER, 15)]"
    using refresh_only [OF new] by (simp add: r config_writes_append)
  then show ?thesis using True by (simp add: stop_present)
next
  case False
  have "attempted (ready_log :: 'b event list) = []" by (simp add: ready_log_def)
  then show ?thesis using False by (simp add: ready_absent stop_absent)
qed

text \<open>
  Both cases on the small network: with the two nodes known, and with none.
\<close>

theorem poll_rate_writes_target_node_3_witness:
  "config_present (nodes home) \<and>
   config_writes (events (snd (signal_network_ready sink_up 1 home))) = [(3, CONFIG_NUMBER, 15)] \<and>
   config_writes (events (snd (stop home))) = [(3, CONFIG_NUMBER, 3600)] \<and>
   \<not> config_present (nodes fresh) \<and>
   fst (signal_network_ready sink_up 1 fresh) = Some KeyError \<and>
   fst (stop fresh) = Some KeyError"
proof -
  have n: "network_id home = 1" "events home = []" "network_id fresh = 1"
    by (simp_all add: home_def fresh_def)
  have c: "config_present (nodes home)"
    by (simp add: config_present_def scenario_defs CONFIG_NUMBER_def)
  have d: "\<not> config_present (nodes fresh)"
    by (simp add: config_present_def fresh_def)
  show ?thesis
    using poll_rate_writes_target_node_3 [of home sink_up]
      poll_rate_writes_target_node_3 [of fresh sink_up] n c d
    by simp
qed

subsection \<open>C4: timers after stop\<close>

text \<open>
  Claim C4 says that no timer is armed once \<^verbatim>\<open>stop()\<close> has been called, and the
  docstring of \<^verbatim>\<open>stop\<close> says that it stops the polling. The code does not do it:
  \<^verbatim>\<open>stop()\<close> leaves the armed timer armed, and when that timer fires
  \<^verbatim>\<open>start_polling\<close> runs and arms the next one. In the run ready, stop, the library
  clears its nodes, the timer fires, the arming of a timer is the last event, after
  \<open>NetworkStop\<close>, and a timer is pending again. In the run in which the library keeps
  its nodes, the cycle after \<^verbatim>\<open>stop()\<close> also writes its two points.
\<close>

theorem timer_armed_after_stop:
  "events (run sink_up [SignalNetworkReady 1, CallStop, NetworkChange [], TimerFires] home)
     = ready_log @
       [SetData 3 CONFIG_NUMBER 15,
        TimerArm 15,
        LogInfo ''Received value refresh %s: %s'',
        WritePoints [refresh_point sink_up (asctime sink_up 0) multisensor temperature],
        LogInfo ''Received value refresh %s: %s'',
        WritePoints [refresh_point sink_up (asctime sink_up 1) multisensor humidity],
        LogInfo ''Stopping network...'',
        SetData 3 CONFIG_NUMBER 3600,
        NetworkStop,
        LogInfo ''Stopped'',
        TimerArm 15] \<and>
   pending (run sink_up [SignalNetworkReady 1, CallStop, NetworkChange [], TimerFires] home) = 1 \<and>
   timer_arms (events (run sink_up [SignalNetworkReady 1, CallStop, TimerFires] home)) = [15, 15] \<and>
   length (written (events (run sink_up [SignalNetworkReady 1, CallStop, TimerFires] home))) = 4 \<and>
   pending (run sink_up [SignalNetworkReady 1, CallStop, TimerFires] home) = 1"
proof -
  have a: "events (run sink_up [SignalNetworkReady 1, CallStop, NetworkChange [], TimerFires] home)
     = ready_log @
       [SetData 3 CONFIG_NUMBER 15,
        TimerArm 15,
        LogInfo ''Received value refresh %s: %s'',
        WritePoints [refresh_point sink_up (asctime sink_up 0) multisensor temperature],
        LogInfo ''Received value refresh %s: %s'',
        WritePoints [refresh_point sink_up (asctime sink_up 1) multisensor humidity],
        LogInfo ''Stopping network...'',
        SetData 3 CONFIG_NUMBER 3600,
        NetworkStop,
        LogInfo ''Stopped'',
        TimerArm 15] \<and>
   pending (run sink_up [SignalNetworkReady 1, CallStop, NetworkChange [], TimerFires] home) = 1"
    by (simp add: step_def scenario_defs model_defs ready_log_def refresh_point_def)
  have b: "timer_arms (events (run sink_up [SignalNetworkReady 1, CallStop, TimerFires] home)) = [15, 15] \<and>
   length (written (events (run sink_up [SignalNetworkReady 1, CallStop, TimerFires] home))) = 4 \<and>
   pending (run sink_up [SignalNetworkReady 1, CallStop, TimerFires] home) = 1"
    by (simp add: step_def scenario_defs model_defs)
  show ?thesis using a b by blast
qed

text \<open>
  The defect does not depend on the run: \<^verbatim>\<open>stop()\<close> arms no timer, but no call ever
  takes an armed timer away, and an armed timer that fires arms the next one whatever the
  state of the network.
\<close>

lemma armed_timers_never_decrease:
  "pending s \<le> pending (run env inputs s) \<and>
   pending (snd (stop s)) = pending s \<and>
   timer_arms (drop (length (events s)) (events (snd (stop s)))) = [] \<and>
   (0 < pending s \<longrightarrow>
      pending (step env TimerFires s) = pending s \<and>
      timer_arms (drop (length (events s)) (events (step env TimerFires s))) = [TIME_INTERVAL])"
proof -
  have a: "pending (snd (stop s)) = pending s \<and>
           timer_arms (drop (length (events s)) (events (snd (stop s)))) = []"
    by (cases "config_present (nodes s)") (simp_all add: stop_present stop_absent)
  have b: "pending (step env TimerFires s) = pending s \<and>
      timer_arms (drop (length (events s)) (events (step env TimerFires s))) = [TIME_INTERVAL]"
    if "0 < pending s"
  proof -
    let ?s0 = "s\<lparr>pending := pending s - 1\<rparr>"
    from start_polling_frame [of env ?s0] obtain c w new where
      r: "snd (start_polling env ?s0) =
         ?s0\<lparr>pending := pending ?s0 + 1, clock := c, wcalls := w,
           events := events ?s0 @ TimerArm TIME_INTERVAL # new\<rparr>"
      and new: "list_all (refresh_event (nodes ?s0)) new" by blast
    have eq: "step env TimerFires s = snd (start_polling env ?s0)"
      using that by (simp add: step_def)
    show ?thesis unfolding eq r using that refresh_only [OF new] by simp
  qed
  show ?thesis using a b pending_run [of s env inputs] by blast
qed

end
